theory Spec2Isabelle
  imports
    Complex_Main
    "HOL-Library.AList"
    "HOL-Library.Char_ord"
    "HOL-Library.List_Lexorder"
    "HOL-Library.Product_Lexorder"
    "HOL-Library.Sublist"
begin

section \<open>Exceptions and values\<close>

text \<open>
  The Python exception classes that the program can meet.  \<open>Exception\<close> is the plain
  \<^verbatim>\<open>Exception\<close> that \<^verbatim>\<open>get_api_data\<close> raises itself; \<open>RequestError\<close> stands for the
  transport errors of httpx that are not \<^verbatim>\<open>HTTPStatusError\<close> (connection refused, timeout);
  \<open>UnboundLocalError\<close> is a subclass of \<^verbatim>\<open>NameError\<close>.  Every class listed here derives
  from \<^verbatim>\<open>Exception\<close>.
\<close>

datatype py_exn =
    HTTPStatusError
  | JSONDecodeError
  | RequestError
  | Exception string
  | KeyError
  | TypeError
  | ValueError
  | AttributeError
  | IndexError
  | FileNotFoundError
  | OSError
  | EOFError
  | ZeroDivisionError
  | UnboundLocalError

text \<open>
  A decoded JSON body, seen through the two keys the program reads.  \<open>JsonObject ids tags\<close>
  is a JSON object with its \<^verbatim>\<open>objectIDs\<close> and \<^verbatim>\<open>tags\<close> members; \<open>JsonOther\<close> is any body
  that is not an object.  A tag is an object with or without a string member \<^verbatim>\<open>term\<close>,
  or something that cannot be subscripted by a string.
\<close>

datatype tag = TagObject "string option" | TagOther

datatype tags_member = TagsMissing | TagsNotIterable | TagsArray "tag list"

datatype ids_member = IdsMissing | IdsNull | IdsArray "int list"

datatype json_body = JsonObject ids_member tags_member | JsonOther

text \<open>What one GET request does: httpx.get, raise_for_status, response.json.\<close>

datatype http_result = RequestFailed | BadStatus | BodyNotJson | JsonBody json_body

text \<open>
  An element of a result list: a term (a Python str) or a pair (a Python dict with the keys
  \<^verbatim>\<open>Source\<close> and \<^verbatim>\<open>Target\<close>).
\<close>

datatype item = TermStr string | PairDict string string

text \<open>
  The value a batch accumulates and returns: the dict of raw mode (insertion-ordered, as an
  association list with distinct keys) or the list of pairs mode.
\<close>

datatype terms_value = DictV "(int \<times> item list) list" | ListV "item list"

type_synonym edge = "string \<times> string \<times> nat"

text \<open>
  What a written file holds.  Serialisation itself (CSV quoting, JSON syntax, the decimal
  rendering of the report's numbers) is left to the sink: a file is its structured
  content, and two files are equal byte for byte when their contents are equal.
\<close>

datatype file_content =
    CsvFile "edge list"
  | JsonFile terms_value
  | ReportFile nat nat nat

section \<open>The environment\<close>

text \<open>
  \<open>env\<close> is what the program cannot change: the answer of the remote API to a request, the
  time a request takes (in microseconds) and the resolution of a file path to the
  components of its absolute parent directory.  \<open>world\<close> is what it reads and changes: the
  clock (microseconds), the log of requests sent (time and URL), the existing
  directories, the files and the pending lines of standard input.  Printing is not
  modelled.
\<close>

record env =
  http :: "string \<Rightarrow> (string \<times> string) list \<Rightarrow> http_result"
  latency :: "string \<Rightarrow> nat"
  dirname_abspath :: "string \<Rightarrow> string list"

record world =
  clock :: int
  requests :: "(int \<times> string) list"
  dirs :: "string list set"
  files :: "string \<rightharpoonup> file_content"
  stdin :: "string list"

section \<open>RateLimiter\<close>

text \<open>
  \<open>calls_made\<close> is the deque of timestamps, oldest first.  \<open>minimum_interval\<close> is set by the
  constructor and never read (in seconds here, a timedelta in the source).
\<close>

record RateLimiter =
  calls_per_second :: rat
  minimum_interval :: rat
  calls_made :: "int list"

definition second :: int where
  "second = 1000000"

definition RateLimiter_init :: "rat \<Rightarrow> py_exn + RateLimiter" where
  "RateLimiter_init cps =
     (if cps = 0 then Inl ZeroDivisionError
      else Inr \<lparr>calls_per_second = cps, minimum_interval = 1 / cps, calls_made = []\<rparr>)"

text \<open>The while loop of \<^verbatim>\<open>wait_if_necessary\<close>: pop timestamps more than a second old.\<close>

fun popleft_old :: "int \<Rightarrow> int list \<Rightarrow> int list" where
  "popleft_old now [] = []"
| "popleft_old now (t # ts) = (if now - t > second then popleft_old now ts else t # ts)"

text \<open>
  \<^verbatim>\<open>now\<close> is read once, on entry.  \<^verbatim>\<open>time.sleep\<close> advances the clock by the time asked for;
  everything else takes no time.  \<^verbatim>\<open>calls_made[0]\<close> on an empty deque raises IndexError
  (possible only when \<open>calls_per_second \<le> 0\<close>).
\<close>

definition wait_if_necessary :: "RateLimiter \<Rightarrow> world \<Rightarrow> (py_exn + RateLimiter) \<times> world" where
  "wait_if_necessary rl w =
     (let now = clock w;
          q = popleft_old now (calls_made rl)
      in if of_nat (length q) \<ge> calls_per_second rl then
           (case q of
              [] \<Rightarrow> (Inl IndexError, w)
            | t0 # _ \<Rightarrow>
                let sleep_time = t0 + second - now;
                    w' = (if sleep_time > 0 then w\<lparr>clock := clock w + sleep_time\<rparr> else w)
                in (Inr (rl\<lparr>calls_made := q @ [now]\<rparr>), w'))
         else (Inr (rl\<lparr>calls_made := q @ [now]\<rparr>), w))"

section \<open>validate_paths\<close>

text \<open>\<^verbatim>\<open>user_validation.lower() == "y"\<close>\<close>

definition lower_is_y :: "string \<Rightarrow> bool" where
  "lower_is_y s = (s = ''y'' \<or> s = ''Y'')"

text \<open>\<^verbatim>\<open>os.makedirs(d, exist_ok=True)\<close> creates the directory and every missing ancestor.\<close>

definition makedirs :: "string list \<Rightarrow> world \<Rightarrow> world" where
  "makedirs d w = w\<lparr>dirs := dirs w \<union> set (prefixes d)\<rparr>"

text \<open>
  A path that is \<^verbatim>\<open>None\<close> makes \<^verbatim>\<open>os.path.abspath\<close> raise TypeError.  \<^verbatim>\<open>input\<close> raises
  EOFError when standard input is exhausted.
\<close>

fun validate_paths :: "env \<Rightarrow> string option list \<Rightarrow> world \<Rightarrow> (py_exn + unit) \<times> world" where
  "validate_paths e [] w = (Inr (), w)"
| "validate_paths e (None # filepaths) w = (Inl TypeError, w)"
| "validate_paths e (Some filepath # filepaths) w =
     (let get_dir_abspath = dirname_abspath e filepath
      in if get_dir_abspath \<in> dirs w then validate_paths e filepaths w
         else (case stdin w of
                 [] \<Rightarrow> (Inl EOFError, w)
               | user_validation # rest \<Rightarrow>
                   if lower_is_y user_validation
                   then validate_paths e filepaths (makedirs get_dir_abspath (w\<lparr>stdin := rest\<rparr>))
                   else (Inl FileNotFoundError, w\<lparr>stdin := rest\<rparr>)))"

section \<open>get_api_data\<close>

text \<open>
  One GET request: it is logged with the time it is sent and takes \<open>latency\<close>.  The two
  except clauses turn HTTPStatusError and JSONDecodeError into a plain Exception; any
  other error of httpx passes through.
\<close>

definition send_request :: "env \<Rightarrow> string \<Rightarrow> world \<Rightarrow> world" where
  "send_request e endpoint w =
     w\<lparr>requests := requests w @ [(clock w, endpoint)],
       clock := clock w + int (latency e endpoint)\<rparr>"

definition get_api_data ::
  "env \<Rightarrow> string \<Rightarrow> (string \<times> string) list option \<Rightarrow> world \<Rightarrow> (py_exn + json_body) \<times> world" where
  "get_api_data e endpoint params w =
     (let params = (case params of None \<Rightarrow> [] | Some ps \<Rightarrow> ps);
          attempt = (case http e endpoint params of
                       RequestFailed \<Rightarrow> Inl RequestError
                     | BadStatus \<Rightarrow> Inl HTTPStatusError
                     | BodyNotJson \<Rightarrow> Inl JSONDecodeError
                     | JsonBody b \<Rightarrow> Inr b)
      in (case attempt of
            Inl HTTPStatusError \<Rightarrow> Inl (Exception ''HTTP request failed'')
          | Inl JSONDecodeError \<Rightarrow> Inl (Exception ''Failed to decode JSON response'')
          | r \<Rightarrow> r,
          send_request e endpoint w))"

section \<open>get_terms_from_endpoint\<close>

text \<open>\<^verbatim>\<open>itertools.combinations(terms, 2)\<close>: index pairs \<open>i < j\<close> in lexicographic order.\<close>

fun combinations2 :: "'a list \<Rightarrow> ('a \<times> 'a) list" where
  "combinations2 [] = []"
| "combinations2 (x # xs) = map (Pair x) xs @ combinations2 xs"

text \<open>\<^verbatim>\<open>data["tags"]\<close>\<close>

definition subscript_tags :: "json_body \<Rightarrow> py_exn + tags_member" where
  "subscript_tags data =
     (case data of
        JsonOther \<Rightarrow> Inl TypeError
      | JsonObject _ TagsMissing \<Rightarrow> Inl KeyError
      | JsonObject _ t \<Rightarrow> Inr t)"

text \<open>\<^verbatim>\<open>tag["term"]\<close>\<close>

definition subscript_term :: "tag \<Rightarrow> py_exn + string" where
  "subscript_term t =
     (case t of
        TagOther \<Rightarrow> Inl TypeError
      | TagObject None \<Rightarrow> Inl KeyError
      | TagObject (Some s) \<Rightarrow> Inr s)"

text \<open>\<^verbatim>\<open>[tag["term"] for tag in data]\<close>: the first failing tag raises.\<close>

fun tag_terms :: "tag list \<Rightarrow> py_exn + string list" where
  "tag_terms [] = Inr []"
| "tag_terms (t # ts) =
     (case subscript_term t of
        Inl ex \<Rightarrow> Inl ex
      | Inr s \<Rightarrow> (case tag_terms ts of Inl ex \<Rightarrow> Inl ex | Inr ss \<Rightarrow> Inr (s # ss)))"

text \<open>
  Lines 91 to 98: from the decoded body to the returned value.  \<open>None\<close> is Python's
  \<^verbatim>\<open>None\<close>, returned by falling off the end when pairs are asked for and there are fewer
  than two terms.  KeyError and TypeError are printed and raised again.
\<close>

definition extract_terms :: "bool \<Rightarrow> json_body \<Rightarrow> py_exn + item list option" where
  "extract_terms return_full_list data =
     (case subscript_tags data of
        Inl ex \<Rightarrow> Inl ex
      | Inr TagsMissing \<Rightarrow> Inl KeyError
      | Inr TagsNotIterable \<Rightarrow> Inl TypeError
      | Inr (TagsArray tags) \<Rightarrow>
          (case tag_terms tags of
             Inl ex \<Rightarrow> Inl ex
           | Inr terms \<Rightarrow>
               if return_full_list then Inr (Some (map TermStr terms))
               else if length terms > 1
               then Inr (Some (map (\<lambda>pair. PairDict (fst pair) (snd pair)) (combinations2 terms)))
               else Inr None))"

definition get_terms_from_endpoint ::
  "env \<Rightarrow> string \<Rightarrow> string \<Rightarrow> bool \<Rightarrow> world \<Rightarrow> (py_exn + item list option) \<times> world" where
  "get_terms_from_endpoint e endpoint objectID return_full_list w =
     (case get_api_data e (endpoint @ ''/'' @ objectID) None w of
        (Inl ex, w') \<Rightarrow> (Inl ex, w')
      | (Inr data, w') \<Rightarrow> (extract_terms return_full_list data, w'))"

section \<open>process_object_terms\<close>

text \<open>\<^verbatim>\<open>str(objectID)\<close> for an integer identifier.\<close>

definition digit_char :: "nat \<Rightarrow> char" where
  "digit_char d = ''0123456789'' ! d"

function str_nat :: "nat \<Rightarrow> string" where
  "str_nat n = (if n < 10 then [digit_char n] else str_nat (n div 10) @ [digit_char (n mod 10)])"
  by pat_completeness auto
termination
  by (relation "measure id") auto

definition str_int :: "int \<Rightarrow> string" where
  "str_int i = (if i < 0 then CHR ''-'' # str_nat (nat (- i)) else str_nat (nat i))"

text \<open>\<^verbatim>\<open>if object_terms:\<close> holds for a non-empty list only (not for None, not for []).\<close>

fun truthy :: "item list option \<Rightarrow> bool" where
  "truthy None = False"
| "truthy (Some []) = False"
| "truthy (Some (x # xs)) = True"

text \<open>
  \<^verbatim>\<open>except Exception\<close> catches every exception of the model, so both the falsy result and
  the exception end in \<^verbatim>\<open>return [], False\<close>.
\<close>

definition process_object_terms ::
  "env \<Rightarrow> string \<Rightarrow> int \<Rightarrow> bool \<Rightarrow> bool \<Rightarrow> world \<Rightarrow> (py_exn + item list \<times> bool) \<times> world" where
  "process_object_terms e object_endpoint objectID return_full_list verbose w =
     (case get_terms_from_endpoint e object_endpoint (str_int objectID) return_full_list w of
        (Inr object_terms, w') \<Rightarrow>
          (if truthy object_terms
           then Inr (case object_terms of Some ts \<Rightarrow> ts | None \<Rightarrow> [], True)
           else Inr ([], False), w')
      | (Inl ex, w') \<Rightarrow> (Inr ([], False), w'))"

section \<open>Sequencing\<close>

text \<open>A raised exception ends the computation; otherwise the next statement runs.\<close>

definition seq ::
  "(py_exn + 'a) \<times> world \<Rightarrow> ('a \<Rightarrow> world \<Rightarrow> (py_exn + 'b) \<times> world) \<Rightarrow> (py_exn + 'b) \<times> world" where
  "seq r k = (case r of (Inl ex, w) \<Rightarrow> (Inl ex, w) | (Inr x, w) \<Rightarrow> k x w)"

text \<open>Truth value of an optional string: \<^verbatim>\<open>None\<close> and the empty string are false.\<close>

fun str_truthy :: "string option \<Rightarrow> bool" where
  "str_truthy None = False"
| "str_truthy (Some s) = (s \<noteq> [])"

section \<open>save_results\<close>

text \<open>
  \<^verbatim>\<open>groupby(["Source", "Target"]).size().reset_index(name="Weight")\<close>: one row per distinct
  ordered (Source, Target), in sorted key order, with the number of occurrences.
\<close>

definition groupby_size :: "(string \<times> string) list \<Rightarrow> edge list" where
  "groupby_size ps = map (\<lambda>k. (fst k, snd k, count_list ps k)) (sort (remdups ps))"

text \<open>
  \<^verbatim>\<open>open(path, "w")\<close> raises FileNotFoundError and \<^verbatim>\<open>DataFrame.to_csv\<close> raises OSError when
  the parent directory is missing.  Other failures of the file system (permissions, a
  path that names a directory or is empty, a full disk) are outside the model, here and
  in \<open>makedirs\<close>.
\<close>

definition open_write :: "env \<Rightarrow> string \<Rightarrow> file_content \<Rightarrow> world \<Rightarrow> (py_exn + unit) \<times> world" where
  "open_write e path c w =
     (if dirname_abspath e path \<in> dirs w then (Inr (), w\<lparr>files := (files w)(path \<mapsto> c)\<rparr>)
      else (Inl FileNotFoundError, w))"

definition to_csv :: "env \<Rightarrow> string \<Rightarrow> edge list \<Rightarrow> world \<Rightarrow> (py_exn + unit) \<times> world" where
  "to_csv e path df w =
     (if dirname_abspath e path \<in> dirs w then (Inr (), w\<lparr>files := (files w)(path \<mapsto> CsvFile df)\<rparr>)
      else (Inl OSError, w))"

text \<open>The Source and Target cells of a row of \<^verbatim>\<open>pd.DataFrame(terms)\<close>.\<close>

fun source_target :: "item \<Rightarrow> (string \<times> string) option" where
  "source_target (PairDict s t) = Some (s, t)"
| "source_target (TermStr s) = None"

text \<open>
  Lines 143 to 146.  An empty list or dict gives an empty frame and nothing is written.
  A list of pairs is grouped and written.  The other shapes have no Source column, so
  \<^verbatim>\<open>groupby\<close> raises KeyError (a dict whose lists differ in length already fails in the
  constructor with ValueError; a dict of empty lists is an empty frame); neither batch
  function reaches them, and a list mixing strings and pairs is never built.
\<close>

definition save_csv_step :: "env \<Rightarrow> terms_value \<Rightarrow> string \<Rightarrow> world \<Rightarrow> (py_exn + unit) \<times> world" where
  "save_csv_step e terms save_csv w =
     (case terms of
        ListV [] \<Rightarrow> (Inr (), w)
      | ListV rows \<Rightarrow>
          (case those (map source_target rows) of
             None \<Rightarrow> (Inl KeyError, w)
           | Some ps \<Rightarrow> to_csv e save_csv (groupby_size ps) w)
      | DictV [] \<Rightarrow> (Inr (), w)
      | DictV d \<Rightarrow>
          (if \<not> list_all (\<lambda>kv. length (snd kv) = length (snd (hd d))) d then (Inl ValueError, w)
           else if snd (hd d) = [] then (Inr (), w)
           else (Inl KeyError, w)))"

text \<open>\<^verbatim>\<open>len(terms)\<close>\<close>

fun len :: "terms_value \<Rightarrow> nat" where
  "len (DictV d) = length d"
| "len (ListV xs) = length xs"

definition save_results ::
  "env \<Rightarrow> terms_value \<Rightarrow> string option \<Rightarrow> string option \<Rightarrow> bool \<Rightarrow> string \<Rightarrow> nat \<Rightarrow> nat \<Rightarrow> bool
     \<Rightarrow> world \<Rightarrow> (py_exn + unit) \<times> world" where
  "save_results e terms save_csv save_file report report_file total_objects none_count
       return_full_list w =
     seq (case save_csv of
            Some p \<Rightarrow> if p \<noteq> [] \<and> \<not> return_full_list then save_csv_step e terms p w else (Inr (), w)
          | None \<Rightarrow> (Inr (), w))
       (\<lambda>_ w1.
     seq (case save_file of
            Some p \<Rightarrow> if p \<noteq> [] then open_write e p (JsonFile terms) w1 else (Inr (), w1)
          | None \<Rightarrow> (Inr (), w1))
       (\<lambda>_ w2.
          if report
          then open_write e report_file (ReportFile total_objects (len terms) none_count) w2
          else (Inr (), w2)))"

section \<open>get_object_ids\<close>

text \<open>\<^verbatim>\<open>xs[:limit]\<close>: a negative limit counts from the end.\<close>

definition slice_to :: "'a list \<Rightarrow> int \<Rightarrow> 'a list" where
  "slice_to xs limit =
     (if limit \<ge> 0 then take (nat limit) xs else take (nat (int (length xs) + limit)) xs)"

text \<open>
  \<^verbatim>\<open>.get("objectIDs", [])\<close> raises AttributeError on a body that is not an object and gives
  \<^verbatim>\<open>None\<close> for a JSON null; slicing \<^verbatim>\<open>None\<close> raises TypeError.
\<close>

definition get_object_ids ::
  "env \<Rightarrow> string \<Rightarrow> (string \<times> string) list option \<Rightarrow> int option \<Rightarrow> world
     \<Rightarrow> (py_exn + int list option) \<times> world" where
  "get_object_ids e collection_endpoint collection_params limit w =
     (let collection_params = (case collection_params of None \<Rightarrow> [] | Some ps \<Rightarrow> ps)
      in seq (get_api_data e collection_endpoint (Some collection_params) w)
           (\<lambda>data w'.
              case data of
                JsonOther \<Rightarrow> (Inl AttributeError, w')
              | JsonObject ids _ \<Rightarrow>
                  let objectIDs = (case ids of
                                     IdsMissing \<Rightarrow> Some []
                                   | IdsNull \<Rightarrow> None
                                   | IdsArray xs \<Rightarrow> Some xs)
                  in (case limit of
                        None \<Rightarrow> (Inr objectIDs, w')
                      | Some l \<Rightarrow>
                          if l = 0 then (Inr objectIDs, w')
                          else (case objectIDs of
                                  None \<Rightarrow> (Inl TypeError, w')
                                | Some xs \<Rightarrow> (Inr (Some (slice_to xs l)), w')))))"

section \<open>The batch functions\<close>

text \<open>
  The for loop of \<^verbatim>\<open>get_terms_from_collection\<close> (lines 202 to 211), with the dict
  \<^verbatim>\<open>terms_dict\<close> and the counter \<^verbatim>\<open>none_count\<close> as accumulators.  Assigning to a key that
  is already present replaces its value in place, as \<open>AList.update\<close> does.
\<close>

fun collection_loop ::
  "env \<Rightarrow> string \<Rightarrow> bool \<Rightarrow> int list \<Rightarrow> RateLimiter \<Rightarrow> (int \<times> item list) list \<Rightarrow> nat \<Rightarrow> world
     \<Rightarrow> (py_exn + (int \<times> item list) list \<times> nat) \<times> world" where
  "collection_loop e object_endpoint verbose [] rate_limiter terms_dict none_count w =
     (Inr (terms_dict, none_count), w)"
| "collection_loop e object_endpoint verbose (objectID # objectIDs) rate_limiter terms_dict
       none_count w =
     seq (wait_if_necessary rate_limiter w)
       (\<lambda>rate_limiter w1.
     seq (process_object_terms e object_endpoint objectID True verbose w1)
       (\<lambda>(object_terms, success) w2.
          if success
          then collection_loop e object_endpoint verbose objectIDs rate_limiter
                 (AList.update objectID object_terms terms_dict) none_count w2
          else collection_loop e object_endpoint verbose objectIDs rate_limiter
                 terms_dict (none_count + 1) w2))"

text \<open>The for loop of \<^verbatim>\<open>get_terms_pairs\<close> (lines 248 to 256).\<close>

fun pairs_loop ::
  "env \<Rightarrow> string \<Rightarrow> bool \<Rightarrow> bool \<Rightarrow> int list \<Rightarrow> RateLimiter \<Rightarrow> item list \<Rightarrow> nat \<Rightarrow> world
     \<Rightarrow> (py_exn + item list \<times> nat) \<times> world" where
  "pairs_loop e object_endpoint return_full_list verbose [] rate_limiter terms none_count w =
     (Inr (terms, none_count), w)"
| "pairs_loop e object_endpoint return_full_list verbose (objectID # objectIDs) rate_limiter
       terms none_count w =
     seq (wait_if_necessary rate_limiter w)
       (\<lambda>rate_limiter w1.
     seq (process_object_terms e object_endpoint objectID return_full_list verbose w1)
       (\<lambda>(object_terms, success) w2.
          if success
          then pairs_loop e object_endpoint return_full_list verbose objectIDs rate_limiter
                 (terms @ object_terms) none_count w2
          else pairs_loop e object_endpoint return_full_list verbose objectIDs rate_limiter
                 terms (none_count + 1) w2))"

text \<open>\<^verbatim>\<open>if not objectIDs\<close>: \<^verbatim>\<open>None\<close> and the empty list.\<close>

fun no_ids :: "int list option \<Rightarrow> bool" where
  "no_ids None = True"
| "no_ids (Some xs) = (xs = [])"

definition get_terms_from_collection ::
  "env \<Rightarrow> string \<Rightarrow> (string \<times> string) list option \<Rightarrow> string option \<Rightarrow> bool \<Rightarrow> string
     \<Rightarrow> string option \<Rightarrow> string option \<Rightarrow> bool \<Rightarrow> int option \<Rightarrow> world
     \<Rightarrow> (py_exn + terms_value \<times> nat) \<times> world" where
  "get_terms_from_collection e collection_endpoint collection_params object_endpoint report
       report_file save_file save_csv verbose limit w =
     seq (validate_paths e [save_file, save_csv, Some report_file] w)
       (\<lambda>_ w1.
          if \<not> str_truthy object_endpoint then (Inl ValueError, w1)
          else
     seq (RateLimiter_init 2, w1)
       (\<lambda>rate_limiter w1.
     seq (get_object_ids e collection_endpoint collection_params limit w1)
       (\<lambda>objectIDs w2.
          if no_ids objectIDs then (Inr (ListV [], 0), w2)
          else
     seq (collection_loop e (the object_endpoint) verbose (the objectIDs) rate_limiter [] 0 w2)
       (\<lambda>(terms_dict, none_count) w3.
     seq (save_results e (DictV terms_dict) save_csv save_file report report_file
            (length (the objectIDs)) none_count True w3)
       (\<lambda>_ w4. (Inr (DictV terms_dict, none_count), w4))))))"

definition get_terms_pairs ::
  "env \<Rightarrow> string \<Rightarrow> (string \<times> string) list option \<Rightarrow> string option \<Rightarrow> bool \<Rightarrow> string
     \<Rightarrow> string option \<Rightarrow> string option \<Rightarrow> bool \<Rightarrow> bool \<Rightarrow> int option \<Rightarrow> world
     \<Rightarrow> (py_exn + terms_value \<times> nat) \<times> world" where
  "get_terms_pairs e collection_endpoint collection_params object_endpoint report
       report_file save_file save_csv verbose return_full_list limit w =
     seq (validate_paths e [save_file, save_csv, Some report_file] w)
       (\<lambda>_ w1.
          if \<not> str_truthy object_endpoint then (Inl ValueError, w1)
          else
     seq (RateLimiter_init 2, w1)
       (\<lambda>rate_limiter w1.
     seq (get_object_ids e collection_endpoint collection_params limit w1)
       (\<lambda>objectIDs w2.
          if no_ids objectIDs then (Inr (ListV [], 0), w2)
          else
     seq (pairs_loop e (the object_endpoint) return_full_list verbose (the objectIDs)
            rate_limiter [] 0 w2)
       (\<lambda>(terms, none_count) w3.
     seq (save_results e (ListV terms) save_csv save_file report report_file
            (length (the objectIDs)) none_count return_full_list w3)
       (\<lambda>_ w4. (Inr (ListV terms, none_count), w4))))))"

section \<open>create_term_pairs\<close>

text \<open>The for loop of lines 17 to 21, with \<^verbatim>\<open>terms_list\<close> as accumulator.\<close>

fun raw_pairs_loop :: "(int \<times> item list) list \<Rightarrow> (item \<times> item) list \<Rightarrow> (item \<times> item) list" where
  "raw_pairs_loop [] terms_list = terms_list"
| "raw_pairs_loop ((objectID, terms) # rest) terms_list =
     raw_pairs_loop rest
       (if length terms > 1 then terms_list @ combinations2 terms else terms_list)"

text \<open>A row whose cells are strings; a cell holding a dict cannot be a group key.\<close>

fun row_cells :: "item \<times> item \<Rightarrow> (string \<times> string) option" where
  "row_cells (TermStr s, TermStr t) = Some (s, t)"
| "row_cells _ = None"

text \<open>
  The raw file must hold a JSON object (\<^verbatim>\<open>.items()\<close>); its keys are never read, so they are
  kept as the batch wrote them (JSON renders an integer key as its decimal string, which
  loses no key).  A non-empty \<^verbatim>\<open>terms_list\<close> gives a non-empty frame.  When \<^verbatim>\<open>terms_list\<close> is
  empty, \<^verbatim>\<open>df\<close> is unbound at the return statement.
\<close>

definition create_term_pairs ::
  "env \<Rightarrow> string \<Rightarrow> string \<Rightarrow> world \<Rightarrow> (py_exn + edge list) \<times> world" where
  "create_term_pairs e raw_terms_file processed_terms_file w =
     (case files w raw_terms_file of
        None \<Rightarrow> (Inl FileNotFoundError, w)
      | Some (JsonFile (DictV raw_terms_df)) \<Rightarrow>
          (let terms_list = raw_pairs_loop raw_terms_df []
           in if length terms_list > 0
              then (case those (map row_cells terms_list) of
                      None \<Rightarrow> (Inl TypeError, w)
                    | Some ps \<Rightarrow>
                        (let df = groupby_size ps
                         in seq (to_csv e processed_terms_file df w) (\<lambda>_ w'. (Inr df, w'))))
              else (Inl UnboundLocalError, w))
      | Some (JsonFile (ListV _)) \<Rightarrow> (Inl AttributeError, w)
      | Some _ \<Rightarrow> (Inl JSONDecodeError, w))"

section \<open>Outcomes that do not depend on the world\<close>

text \<open>
  The answer of the API is a function of the request alone, so what a batch lists and what
  it finds for an object can be read off at any world; the blank one is used.
\<close>

definition blank_world :: world where
  "blank_world = \<lparr>clock = 0, requests = [], dirs = {}, files = Map.empty, stdin = []\<rparr>"

text \<open>The list \<^verbatim>\<open>process_object_terms\<close> returns for an object, and its success flag.\<close>

definition object_terms_of :: "env \<Rightarrow> string \<Rightarrow> bool \<Rightarrow> int \<Rightarrow> item list" where
  "object_terms_of e object_endpoint return_full_list objectID =
     (case fst (process_object_terms e object_endpoint objectID return_full_list False blank_world) of
        Inr (object_terms, success) \<Rightarrow> object_terms
      | Inl _ \<Rightarrow> [])"

definition object_success :: "env \<Rightarrow> string \<Rightarrow> bool \<Rightarrow> int \<Rightarrow> bool" where
  "object_success e object_endpoint return_full_list objectID =
     (case fst (process_object_terms e object_endpoint objectID return_full_list False blank_world) of
        Inr (object_terms, success) \<Rightarrow> success
      | Inl _ \<Rightarrow> False)"

text \<open>The object identifiers a batch iterates over (none when the listing is null).\<close>

definition listed_ids :: "env \<Rightarrow> string \<Rightarrow> (string \<times> string) list option \<Rightarrow> int option \<Rightarrow> int list" where
  "listed_ids e collection_endpoint collection_params limit =
     (case fst (get_object_ids e collection_endpoint collection_params limit blank_world) of
        Inr (Some objectIDs) \<Rightarrow> objectIDs
      | _ \<Rightarrow> [])"

text \<open>
  The terms the API gives for an object: the \<^verbatim>\<open>term\<close> members of its tags when the request
  and the traversal succeed, no terms otherwise.  Used to relate the two batch modes.
\<close>

definition fetched_terms :: "env \<Rightarrow> string \<Rightarrow> int \<Rightarrow> string list" where
  "fetched_terms e object_endpoint objectID =
     (case http e (object_endpoint @ ''/'' @ str_int objectID) [] of
        JsonBody (JsonObject _ (TagsArray tags)) \<Rightarrow>
          (case tag_terms tags of Inr terms \<Rightarrow> terms | Inl _ \<Rightarrow> [])
      | _ \<Rightarrow> [])"

text \<open>The limiter both batch functions build: \<^verbatim>\<open>RateLimiter(calls_per_second=2.0)\<close>.\<close>

definition batch_limiter :: RateLimiter where
  "batch_limiter = \<lparr>calls_per_second = 2, minimum_interval = 1 / 2, calls_made = []\<rparr>"

section \<open>Concrete inputs\<close>

text \<open>
  A collection of five objects behind \<^verbatim>\<open>api/objects\<close>: object 1 has the terms A, B, C,
  object 2 the single term B, object 3 answers with an HTTP error status, object 4 has the
  terms B, A and object 5 has no \<^verbatim>\<open>tags\<close> member.  Every request takes a tenth of a second
  and every path lies in the existing directory \<^verbatim>\<open>data\<close>.
\<close>

definition demo_env :: env where
  "demo_env =
     \<lparr>http = (\<lambda>url params.
         if url = ''api/objects'' then JsonBody (JsonObject (IdsArray [1, 2, 3, 4, 5]) TagsMissing)
         else if url = ''api/objects/1''
           then JsonBody (JsonObject IdsMissing
                  (TagsArray [TagObject (Some ''A''), TagObject (Some ''B''), TagObject (Some ''C'')]))
         else if url = ''api/objects/2''
           then JsonBody (JsonObject IdsMissing (TagsArray [TagObject (Some ''B'')]))
         else if url = ''api/objects/3'' then BadStatus
         else if url = ''api/objects/4''
           then JsonBody (JsonObject IdsMissing (TagsArray [TagObject (Some ''B''), TagObject (Some ''A'')]))
         else JsonBody (JsonObject IdsMissing TagsMissing)),
       latency = (\<lambda>url. 100000),
       dirname_abspath = (\<lambda>path. [''data''])\<rparr>"

definition demo_world :: world where
  "demo_world = \<lparr>clock = 0, requests = [], dirs = {[''data'']}, files = Map.empty, stdin = []\<rparr>"

text \<open>
  No directory exists and the user answers n to the prompt.
\<close>

definition declined_world :: world where
  "declined_world = \<lparr>clock = 0, requests = [], dirs = {}, files = Map.empty, stdin = [''n'']\<rparr>"

text \<open>
  A raw dump in which no object has two terms.
\<close>

definition single_terms_world :: world where
  "single_terms_world =
     \<lparr>clock = 0, requests = [], dirs = {[''data'']},
      files = [''raw.json'' \<mapsto> JsonFile (DictV [(2, [TermStr ''B'']), (7, [])])],
      stdin = []\<rparr>"

text \<open>
  The raw dump of the concrete collection (objects 1, 2 and 4), as a full-list batch
  leaves it.
\<close>

definition dumped_world :: world where
  "dumped_world =
     \<lparr>clock = 0, requests = [], dirs = {[''data'']},
      files = [''raw.json'' \<mapsto> JsonFile (DictV
                 [(1, [TermStr ''A'', TermStr ''B'', TermStr ''C'']),
                  (2, [TermStr ''B'']),
                  (4, [TermStr ''B'', TermStr ''A''])])],
      stdin = []\<rparr>"

section \<open>Basic facts\<close>

subsection \<open>Sequencing, requests and the limiter\<close>

lemma RateLimiter_init_2: "RateLimiter_init 2 = Inr batch_limiter"
  by (simp add: RateLimiter_init_def batch_limiter_def)

lemma seq_Inr [simp]: "seq (Inr x, w) k = k x w"
  by (simp add: seq_def)

lemma seq_Inl [simp]: "seq (Inl ex, w) k = (Inl ex, w)"
  by (simp add: seq_def)

lemma get_api_data_snd: "snd (get_api_data e endpoint params w) = send_request e endpoint w"
  by (simp add: get_api_data_def)

lemma get_api_data_fst:
  "fst (get_api_data e endpoint params w) = fst (get_api_data e endpoint params w0)"
  by (simp add: get_api_data_def)

lemma get_terms_from_endpoint_fst:
  "fst (get_terms_from_endpoint e ep oid full w) = fst (get_terms_from_endpoint e ep oid full w0)"
  using get_api_data_fst [of e "ep @ ''/'' @ oid" None w w0]
  by (auto simp: get_terms_from_endpoint_def split: prod.splits sum.splits)

lemma get_terms_from_endpoint_snd:
  "snd (get_terms_from_endpoint e ep oid full w) = send_request e (ep @ ''/'' @ oid) w"
  using get_api_data_snd [of e "ep @ ''/'' @ oid" None w]
  by (auto simp: get_terms_from_endpoint_def split: prod.splits sum.splits)

lemma process_object_terms_eq:
  "process_object_terms e ep oid full v w =
     (Inr (object_terms_of e ep full oid, object_success e ep full oid),
      send_request e (ep @ ''/'' @ str_int oid) w)"
  using get_terms_from_endpoint_fst [of e ep "str_int oid" full w blank_world]
        get_terms_from_endpoint_snd [of e ep "str_int oid" full w]
  by (auto simp: process_object_terms_def object_terms_of_def object_success_def
           split: prod.splits sum.splits)

lemma wait_if_necessary_ok:
  assumes "calls_per_second rl > 0"
  shows "\<exists>q w'. wait_if_necessary rl w = (Inr (rl\<lparr>calls_made := q\<rparr>), w')
           \<and> requests w' = requests w \<and> dirs w' = dirs w \<and> files w' = files w \<and> stdin w' = stdin w"
  using assms
  by (auto simp: wait_if_necessary_def Let_def split: list.splits)

lemma send_request_fields [simp]:
  "dirs (send_request e u w) = dirs w" "files (send_request e u w) = files w"
  "stdin (send_request e u w) = stdin w"
  by (simp_all add: send_request_def)

lemma batch_limiter_pos: "calls_per_second batch_limiter > 0"
  by (simp add: batch_limiter_def)

subsection \<open>The loops\<close>

lemma pairs_loop_result:
  assumes "calls_per_second rl > 0"
  shows "\<exists>w'. pairs_loop e ep full v ids rl terms n w =
           (Inr (terms @ concat (map (object_terms_of e ep full) (filter (object_success e ep full) ids)),
                 n + length (filter (\<lambda>i. \<not> object_success e ep full i) ids)), w')
          \<and> dirs w' = dirs w \<and> files w' = files w \<and> stdin w' = stdin w"
  using assms
proof (induction ids arbitrary: rl terms n w)
  case Nil
  then show ?case by simp
next
  case (Cons i ids)
  from wait_if_necessary_ok [OF Cons.prems, of w] obtain q w1 where
    w1: "wait_if_necessary rl w = (Inr (rl\<lparr>calls_made := q\<rparr>), w1)"
        "dirs w1 = dirs w" "files w1 = files w" "stdin w1 = stdin w"
    by blast
  have pos: "calls_per_second (rl\<lparr>calls_made := q\<rparr>) > 0"
    using Cons.prems by simp
  show ?case
  proof (cases "object_success e ep full i")
    case True
    from Cons.IH [OF pos, of "terms @ object_terms_of e ep full i" n
        "send_request e (ep @ ''/'' @ str_int i) w1"]
    show ?thesis
      using w1 True by (simp add: process_object_terms_eq)
  next
    case False
    from Cons.IH [OF pos, of terms "n + 1" "send_request e (ep @ ''/'' @ str_int i) w1"]
    show ?thesis
      using w1 False by (simp add: process_object_terms_eq)
  qed
qed

lemma collection_loop_result:
  assumes "calls_per_second rl > 0"
  shows "\<exists>w'. collection_loop e ep v ids rl d n w =
           (Inr (foldl (\<lambda>d i. AList.update i (object_terms_of e ep True i) d) d
                   (filter (object_success e ep True) ids),
                 n + length (filter (\<lambda>i. \<not> object_success e ep True i) ids)), w')
          \<and> dirs w' = dirs w \<and> files w' = files w \<and> stdin w' = stdin w"
  using assms
proof (induction ids arbitrary: rl d n w)
  case Nil
  then show ?case by simp
next
  case (Cons i ids)
  from wait_if_necessary_ok [OF Cons.prems, of w] obtain q w1 where
    w1: "wait_if_necessary rl w = (Inr (rl\<lparr>calls_made := q\<rparr>), w1)"
        "dirs w1 = dirs w" "files w1 = files w" "stdin w1 = stdin w"
    by blast
  have pos: "calls_per_second (rl\<lparr>calls_made := q\<rparr>) > 0"
    using Cons.prems by simp
  show ?case
  proof (cases "object_success e ep True i")
    case True
    from Cons.IH [OF pos, of "AList.update i (object_terms_of e ep True i) d" n
        "send_request e (ep @ ''/'' @ str_int i) w1"]
    show ?thesis
      using w1 True by (simp add: process_object_terms_eq)
  next
    case False
    from Cons.IH [OF pos, of d "n + 1" "send_request e (ep @ ''/'' @ str_int i) w1"]
    show ?thesis
      using w1 False by (simp add: process_object_terms_eq)
  qed
qed

subsection \<open>The dict of raw mode\<close>

lemma foldl_update_fresh:
  "distinct ks \<Longrightarrow> set ks \<inter> fst ` set d = {} \<Longrightarrow>
     foldl (\<lambda>d i. AList.update i (f i) d) d ks = d @ map (\<lambda>i. (i, f i)) ks"
proof (induction ks arbitrary: d)
  case Nil
  then show ?case by simp
next
  case (Cons k ks)
  have fresh: "k \<notin> fst ` set d" using Cons.prems by auto
  have upd: "AList.update k (f k) d = d @ [(k, f k)]"
    using fresh by (induction d) auto
  have "set ks \<inter> fst ` set (d @ [(k, f k)]) = {}"
    using Cons.prems by auto
  with Cons.IH [of "d @ [(k, f k)]"] Cons.prems upd show ?case by simp
qed

lemma foldl_update_keys:
  "fst ` set (foldl (\<lambda>d i. AList.update i (f i) d) d ks) = fst ` set d \<union> set ks"
  by (induction ks arbitrary: d) (auto simp: AList.dom_update)

lemma foldl_update_distinct:
  "distinct (map fst d) \<Longrightarrow> distinct (map fst (foldl (\<lambda>d i. AList.update i (f i) d) d ks))"
  by (induction ks arbitrary: d) (auto simp: AList.distinct_update)

lemma foldl_update_length:
  "length (foldl (\<lambda>d i. AList.update i (f i) d) [] ks) = card (set ks)"
proof -
  let ?d = "foldl (\<lambda>d i. AList.update i (f i) d) [] ks"
  have "distinct (map fst ?d)"
    by (rule foldl_update_distinct) simp
  then have "length ?d = card (set (map fst ?d))"
    by (metis distinct_card length_map)
  also have "set (map fst ?d) = set ks"
    using foldl_update_keys [of f "[]" ks] by simp
  finally show ?thesis .
qed

subsection \<open>Listing and path validation\<close>

lemma fst_get_object_ids:
  "fst (get_object_ids e cep params limit w) = fst (get_object_ids e cep params limit w0)"
  by (auto simp: get_object_ids_def get_api_data_def Let_def
           split: json_body.splits option.splits ids_member.splits sum.splits http_result.splits py_exn.splits)

lemma get_object_ids_fields:
  "dirs (snd (get_object_ids e cep params limit w)) = dirs w"
  "files (snd (get_object_ids e cep params limit w)) = files w"
  "stdin (snd (get_object_ids e cep params limit w)) = stdin w"
  by (auto simp: get_object_ids_def get_api_data_def Let_def
           split: json_body.splits option.splits ids_member.splits sum.splits http_result.splits py_exn.splits)

lemma listed_ids_eq:
  "fst (get_object_ids e cep params limit w) = Inr objectIDs \<Longrightarrow>
     listed_ids e cep params limit = (case objectIDs of None \<Rightarrow> [] | Some xs \<Rightarrow> xs)"
  using fst_get_object_ids [of e cep params limit w blank_world]
  by (simp add: listed_ids_def split: option.splits)

lemma get_object_ids_at:
  assumes "fst (get_object_ids e cep params limit blank_world) = Inr objectIDs"
  obtains w2 where "get_object_ids e cep params limit w1 = (Inr objectIDs, w2)" "dirs w2 = dirs w1"
proof -
  have "fst (get_object_ids e cep params limit w1) = Inr objectIDs"
    using assms fst_get_object_ids [of e cep params limit w1 blank_world] by simp
  then have "get_object_ids e cep params limit w1 = (Inr objectIDs, snd (get_object_ids e cep params limit w1))"
    by (metis prod.collapse)
  then show thesis
    using that get_object_ids_fields(1) by blast
qed

lemma makedirs_fields [simp]:
  "requests (makedirs d w) = requests w" "files (makedirs d w) = files w"
  "clock (makedirs d w) = clock w" "dirs (makedirs d w) = dirs w \<union> set (prefixes d)"
  by (simp_all add: makedirs_def)

lemma validate_paths_keeps:
  "requests (snd (validate_paths e ps w)) = requests w
   \<and> files (snd (validate_paths e ps w)) = files w
   \<and> clock (snd (validate_paths e ps w)) = clock w
   \<and> dirs w \<subseteq> dirs (snd (validate_paths e ps w))"
proof (induction e ps w rule: validate_paths.induct)
  case (1 e w)
  then show ?case by simp
next
  case (2 e filepaths w)
  then show ?case by simp
next
  case (3 e filepath filepaths w)
  then show ?case
    by (auto simp: Let_def split: list.splits)
qed

lemma validate_paths_ok:
  "fst (validate_paths e ps w) = Inr u \<Longrightarrow>
     None \<notin> set ps \<and> (\<forall>p. Some p \<in> set ps \<longrightarrow> dirname_abspath e p \<in> dirs (snd (validate_paths e ps w)))"
proof (induction e ps w rule: validate_paths.induct)
  case (1 e w)
  then show ?case by simp
next
  case (2 e filepaths w)
  then show ?case by simp
next
  case (3 e filepath filepaths w)
  show ?case
  proof (cases "dirname_abspath e filepath \<in> dirs w")
    case True
    with 3 have ih: "None \<notin> set filepaths \<and>
        (\<forall>p. Some p \<in> set filepaths \<longrightarrow> dirname_abspath e p \<in> dirs (snd (validate_paths e filepaths w)))"
      by (simp add: Let_def)
    have "dirs w \<subseteq> dirs (snd (validate_paths e filepaths w))"
      using validate_paths_keeps by blast
    with True ih show ?thesis by (auto simp: Let_def)
  next
    case False
    with "3.prems" obtain a rest where st: "stdin w = a # rest" and y: "lower_is_y a"
      by (auto simp: Let_def split: list.splits if_splits)
    let ?w = "makedirs (dirname_abspath e filepath) (w\<lparr>stdin := rest\<rparr>)"
    from False st y "3.prems" have "fst (validate_paths e filepaths ?w) = Inr u"
      by (simp add: Let_def)
    with "3.IH"(2) [OF refl False st y] have ih: "None \<notin> set filepaths \<and>
        (\<forall>p. Some p \<in> set filepaths \<longrightarrow> dirname_abspath e p \<in> dirs (snd (validate_paths e filepaths ?w)))"
      by simp
    have "dirs ?w \<subseteq> dirs (snd (validate_paths e filepaths ?w))"
      using validate_paths_keeps by blast
    then have "dirname_abspath e filepath \<in> dirs (snd (validate_paths e filepaths ?w))"
      by auto
    with False st y ih show ?thesis by (auto simp: Let_def)
  qed
qed

lemma validated_three:
  assumes "fst (validate_paths e [sf, sc, Some rf] w) = Inr ()"
  obtains pf pc w1 where "sf = Some pf" "sc = Some pc"
    "validate_paths e [sf, sc, Some rf] w = (Inr (), w1)"
    "dirname_abspath e pf \<in> dirs w1" "dirname_abspath e pc \<in> dirs w1"
    "dirname_abspath e rf \<in> dirs w1" "requests w1 = requests w"
proof -
  let ?w1 = "snd (validate_paths e [sf, sc, Some rf] w)"
  from validate_paths_ok [OF assms] have
    n: "None \<notin> set [sf, sc, Some rf]"
    and d: "\<And>p. Some p \<in> set [sf, sc, Some rf] \<Longrightarrow> dirname_abspath e p \<in> dirs ?w1"
    by blast+
  from n obtain pf pc where s: "sf = Some pf" "sc = Some pc"
    by (cases sf; cases sc) auto
  have "validate_paths e [sf, sc, Some rf] w = (Inr (), ?w1)"
    using assms by (metis prod.collapse)
  moreover have "requests ?w1 = requests w"
    using validate_paths_keeps by blast
  ultimately show thesis
    using that [of pf pc ?w1] s d by auto
qed

subsection \<open>Saving\<close>

lemma those_source_target:
  "list_all (\<lambda>x. source_target x \<noteq> None) rows \<Longrightarrow>
     those (map source_target rows) = Some (map (\<lambda>x. the (source_target x)) rows)"
  by (induction rows) auto

lemma object_terms_of_pairs:
  "list_all (\<lambda>x. source_target x \<noteq> None) (object_terms_of e ep False i)"
  by (auto simp: object_terms_of_def process_object_terms_def get_terms_from_endpoint_def
        extract_terms_def list_all_iff
      split: prod.splits sum.splits option.splits tags_member.splits if_splits)

lemma list_all_concat:
  "list_all (\<lambda>xs. list_all P xs) xss \<Longrightarrow> list_all P (concat xss)"
  by (induction xss) auto

lemma save_csv_step_list_ok:
  assumes "dirname_abspath e p \<in> dirs w" "list_all (\<lambda>x. source_target x \<noteq> None) rows"
  shows "\<exists>w'. save_csv_step e (ListV rows) p w = (Inr (), w') \<and> dirs w' = dirs w \<and> requests w' = requests w"
  using assms those_source_target [OF assms(2)]
  by (auto simp: save_csv_step_def to_csv_def split: list.splits)

lemma open_write_ok:
  assumes "dirname_abspath e p \<in> dirs w"
  shows "\<exists>w'. open_write e p c w = (Inr (), w') \<and> dirs w' = dirs w \<and> requests w' = requests w"
  using assms by (simp add: open_write_def)

lemma save_results_ok:
  assumes sc: "dirname_abspath e pc \<in> dirs w"
    and sf: "dirname_abspath e pf \<in> dirs w"
    and rf: "dirname_abspath e report_file \<in> dirs w"
    and rows: "full \<or> (\<exists>rows. terms = ListV rows \<and> list_all (\<lambda>x. source_target x \<noteq> None) rows)"
  shows "\<exists>w'. save_results e terms (Some pc) (Some pf) report report_file tot n full w = (Inr (), w')
            \<and> requests w' = requests w"
proof -
  let ?s1 = "if pc \<noteq> [] \<and> \<not> full then save_csv_step e terms pc w else (Inr (), w)"
  have "\<exists>w1. ?s1 = (Inr (), w1) \<and> dirs w1 = dirs w \<and> requests w1 = requests w"
    using rows save_csv_step_list_ok [OF sc] by auto
  then obtain w1 where w1: "?s1 = (Inr (), w1)" "dirs w1 = dirs w" "requests w1 = requests w"
    by blast
  let ?s2 = "if pf \<noteq> [] then open_write e pf (JsonFile terms) w1 else (Inr (), w1)"
  have "\<exists>w2. ?s2 = (Inr (), w2) \<and> dirs w2 = dirs w \<and> requests w2 = requests w"
    using sf w1 by (auto simp: open_write_def)
  then obtain w2 where w2: "?s2 = (Inr (), w2)" "dirs w2 = dirs w" "requests w2 = requests w"
    by blast
  let ?s3 = "if report then open_write e report_file (ReportFile tot (len terms) n) w2 else (Inr (), w2)"
  have "\<exists>w3. ?s3 = (Inr (), w3) \<and> requests w3 = requests w"
    using rf w2 by (auto simp: open_write_def)
  then obtain w3 where w3: "?s3 = (Inr (), w3)" "requests w3 = requests w"
    by blast
  show ?thesis
    using w1 w2 w3 by (simp add: save_results_def)
qed

subsection \<open>The batch functions return\<close>

lemma get_terms_pairs_returns:
  assumes val: "fst (validate_paths e [sf, sc, Some rf] w) = Inr ()"
    and ep: "str_truthy oep"
    and ids: "fst (get_object_ids e cep params limit blank_world) = Inr objectIDs"
  shows "\<exists>w'. get_terms_pairs e cep params oep report rf sf sc v full limit w =
           (Inr (ListV (concat (map (object_terms_of e (the oep) full)
                   (filter (object_success e (the oep) full) (listed_ids e cep params limit)))),
                 length (filter (\<lambda>i. \<not> object_success e (the oep) full i)
                   (listed_ids e cep params limit))), w')"
proof -
  from validated_three [OF val] obtain pf pc w1 where
    s: "sf = Some pf" "sc = Some pc" and
    v1: "validate_paths e [sf, sc, Some rf] w = (Inr (), w1)" and
    d1: "dirname_abspath e pf \<in> dirs w1" "dirname_abspath e pc \<in> dirs w1"
        "dirname_abspath e rf \<in> dirs w1"
    by blast
  from get_object_ids_at [OF ids, of w1] obtain w2 where
    g: "get_object_ids e cep params limit w1 = (Inr objectIDs, w2)" and d2: "dirs w2 = dirs w1"
    by blast
  have l: "listed_ids e cep params limit = (case objectIDs of None \<Rightarrow> [] | Some xs \<Rightarrow> xs)"
    using listed_ids_eq [of e cep params limit blank_world] ids by simp
  show ?thesis
  proof (cases "no_ids objectIDs")
    case True
    then have "listed_ids e cep params limit = []"
      using l by (cases objectIDs) auto
    then show ?thesis
      using True v1 ep g by (simp add: get_terms_pairs_def RateLimiter_init_2)
  next
    case False
    then obtain xs where xs: "objectIDs = Some xs" "listed_ids e cep params limit = xs"
      using l by (cases objectIDs) auto
    let ?terms = "concat (map (object_terms_of e (the oep) full)
                   (filter (object_success e (the oep) full) xs))"
    let ?n = "length (filter (\<lambda>i. \<not> object_success e (the oep) full i) xs)"
    from pairs_loop_result [OF batch_limiter_pos, of e "the oep" full v xs "[]" 0 w2]
    obtain w3 where
      p: "pairs_loop e (the oep) full v xs batch_limiter [] 0 w2 = (Inr (?terms, ?n), w3)"
      and d3: "dirs w3 = dirs w2"
      by auto
    have rows: "full \<or> (\<exists>rows. ListV ?terms = ListV rows \<and> list_all (\<lambda>x. source_target x \<noteq> None) rows)"
    proof (cases full)
      case True
      then show ?thesis by simp
    next
      case False
      then have "list_all (\<lambda>x. source_target x \<noteq> None) ?terms"
        using object_terms_of_pairs [of e "the oep"]
        by (intro list_all_concat) (simp add: list_all_iff)
      then show ?thesis by simp
    qed
    from save_results_ok [of e pc w3 pf rf full "ListV ?terms" report "length xs" ?n] d1 d2 d3 rows
    obtain w4 where
      sv: "save_results e (ListV ?terms) (Some pc) (Some pf) report rf (length xs) ?n full w3 = (Inr (), w4)"
      by auto
    show ?thesis
      using False v1 ep g xs p sv s by (simp add: get_terms_pairs_def RateLimiter_init_2)
  qed
qed

lemma get_terms_from_collection_returns:
  assumes val: "fst (validate_paths e [sf, sc, Some rf] w) = Inr ()"
    and ep: "str_truthy oep"
    and ids: "fst (get_object_ids e cep params limit blank_world) = Inr objectIDs"
  shows "\<exists>w'. get_terms_from_collection e cep params oep report rf sf sc v limit w =
           (Inr (if listed_ids e cep params limit = [] then ListV []
                 else DictV (foldl (\<lambda>d i. AList.update i (object_terms_of e (the oep) True i) d) []
                   (filter (object_success e (the oep) True) (listed_ids e cep params limit))),
                 length (filter (\<lambda>i. \<not> object_success e (the oep) True i)
                   (listed_ids e cep params limit))), w')"
proof -
  from validated_three [OF val] obtain pf pc w1 where
    s: "sf = Some pf" "sc = Some pc" and
    v1: "validate_paths e [sf, sc, Some rf] w = (Inr (), w1)" and
    d1: "dirname_abspath e pf \<in> dirs w1" "dirname_abspath e pc \<in> dirs w1"
        "dirname_abspath e rf \<in> dirs w1"
    by blast
  from get_object_ids_at [OF ids, of w1] obtain w2 where
    g: "get_object_ids e cep params limit w1 = (Inr objectIDs, w2)" and d2: "dirs w2 = dirs w1"
    by blast
  have l: "listed_ids e cep params limit = (case objectIDs of None \<Rightarrow> [] | Some xs \<Rightarrow> xs)"
    using listed_ids_eq [of e cep params limit blank_world] ids by simp
  show ?thesis
  proof (cases "no_ids objectIDs")
    case True
    then have "listed_ids e cep params limit = []"
      using l by (cases objectIDs) auto
    then show ?thesis
      using True v1 ep g by (simp add: get_terms_from_collection_def RateLimiter_init_2)
  next
    case False
    then obtain xs where xs: "objectIDs = Some xs" "listed_ids e cep params limit = xs" "xs \<noteq> []"
      using l by (cases objectIDs) auto
    let ?d = "foldl (\<lambda>d i. AList.update i (object_terms_of e (the oep) True i) d) []
                   (filter (object_success e (the oep) True) xs)"
    let ?n = "length (filter (\<lambda>i. \<not> object_success e (the oep) True i) xs)"
    from collection_loop_result [OF batch_limiter_pos, of e "the oep" v xs "[]" 0 w2]
    obtain w3 where
      p: "collection_loop e (the oep) v xs batch_limiter [] 0 w2 = (Inr (?d, ?n), w3)"
      and d3: "dirs w3 = dirs w2"
      by auto
    from save_results_ok [of e pc w3 pf rf True "DictV ?d" report "length xs" ?n] d1 d2 d3
    obtain w4 where
      sv: "save_results e (DictV ?d) (Some pc) (Some pf) report rf (length xs) ?n True w3 = (Inr (), w4)"
      by auto
    show ?thesis
      using False v1 ep g xs p sv s by (simp add: get_terms_from_collection_def RateLimiter_init_2)
  qed
qed

lemma pairs_Inr_D:
  assumes "get_terms_pairs e cep params oep report rf sf sc v full limit w = (Inr r, w')"
  shows "fst (validate_paths e [sf, sc, Some rf] w) = Inr () \<and> str_truthy oep
       \<and> (\<exists>objectIDs. fst (get_object_ids e cep params limit blank_world) = Inr objectIDs)"
proof -
  obtain r1 w1 where v: "validate_paths e [sf, sc, Some rf] w = (r1, w1)"
    by (cases "validate_paths e [sf, sc, Some rf] w") auto
  obtain r2 w2 where g: "get_object_ids e cep params limit w1 = (r2, w2)"
    by (cases "get_object_ids e cep params limit w1") auto
  from assms v g have "r1 = Inr () \<and> str_truthy oep \<and> (\<exists>objectIDs. r2 = Inr objectIDs)"
    by (cases r1; cases r2)
       (auto simp: get_terms_pairs_def RateLimiter_init_2 split: if_splits)
  moreover have "fst (get_object_ids e cep params limit blank_world) = r2"
    using g fst_get_object_ids [of e cep params limit blank_world w1] by simp
  ultimately show ?thesis
    using v by auto
qed

lemma collection_Inr_D:
  assumes "get_terms_from_collection e cep params oep report rf sf sc v limit w = (Inr r, w')"
  shows "fst (validate_paths e [sf, sc, Some rf] w) = Inr () \<and> str_truthy oep
       \<and> (\<exists>objectIDs. fst (get_object_ids e cep params limit blank_world) = Inr objectIDs)"
proof -
  obtain r1 w1 where v: "validate_paths e [sf, sc, Some rf] w = (r1, w1)"
    by (cases "validate_paths e [sf, sc, Some rf] w") auto
  obtain r2 w2 where g: "get_object_ids e cep params limit w1 = (r2, w2)"
    by (cases "get_object_ids e cep params limit w1") auto
  from assms v g have "r1 = Inr () \<and> str_truthy oep \<and> (\<exists>objectIDs. r2 = Inr objectIDs)"
    by (cases r1; cases r2)
       (auto simp: get_terms_from_collection_def RateLimiter_init_2 split: if_splits)
  moreover have "fst (get_object_ids e cep params limit blank_world) = r2"
    using g fst_get_object_ids [of e cep params limit blank_world w1] by simp
  ultimately show ?thesis
    using v by auto
qed

lemma missing_endpoint_pairs:
  assumes "\<not> str_truthy object_endpoint"
  shows "get_terms_pairs e cep params object_endpoint report rf sf sc v full limit w =
           (case validate_paths e [sf, sc, Some rf] w of
              (Inl ex, w1) \<Rightarrow> (Inl ex, w1)
            | (Inr u, w1) \<Rightarrow> (Inl ValueError, w1))"
  using assms by (simp add: get_terms_pairs_def seq_def split: prod.splits sum.splits)

lemma missing_endpoint_collection:
  assumes "\<not> str_truthy object_endpoint"
  shows "get_terms_from_collection e cep params object_endpoint report rf sf sc v limit w =
           (case validate_paths e [sf, sc, Some rf] w of
              (Inl ex, w1) \<Rightarrow> (Inl ex, w1)
            | (Inr u, w1) \<Rightarrow> (Inl ValueError, w1))"
  using assms by (simp add: get_terms_from_collection_def seq_def split: prod.splits sum.splits)

subsection \<open>Pairs of terms\<close>

lemma length_combinations2: "length (combinations2 xs) = length xs choose 2"
  by (induction xs) (simp_all add: numeral_2_eq_2)

lemma combinations2_members:
  "(a, b) \<in> set (combinations2 xs) \<Longrightarrow> a \<in> set xs \<and> b \<in> set xs"
  by (induction xs) auto

lemma combinations2_no_self:
  "distinct xs \<Longrightarrow> (a, b) \<in> set (combinations2 xs) \<Longrightarrow> a \<noteq> b"
  by (induction xs) (auto dest: combinations2_members)

lemma combinations2_unordered_distinct:
  "distinct xs \<Longrightarrow> distinct (map (\<lambda>p. {fst p, snd p}) (combinations2 xs))"
proof (induction xs)
  case Nil
  then show ?case by simp
next
  case (Cons x xs)
  have inj: "inj_on (\<lambda>y. {x, y}) (set xs)"
    by (auto simp: inj_on_def doubleton_eq_iff)
  have d1: "distinct (map (\<lambda>y. {x, y}) xs)"
    using Cons.prems inj by (simp add: distinct_map)
  have d2: "distinct (map (\<lambda>p. {fst p, snd p}) (combinations2 xs))"
    using Cons by simp
  have disj: "(\<lambda>y. {x, y}) ` set xs \<inter> (\<lambda>p. {fst p, snd p}) ` set (combinations2 xs) = {}"
  proof (rule ccontr)
    assume "\<not> ?thesis"
    then obtain y a b where "y \<in> set xs" "(a, b) \<in> set (combinations2 xs)" "{x, y} = {a, b}"
      by auto
    then have "x \<in> set xs"
      using combinations2_members [of a b xs] by (auto simp: doubleton_eq_iff)
    with Cons.prems show False by simp
  qed
  from d1 d2 disj show ?case by (simp add: comp_def image_image)
qed

lemma nth_shift:
  "map (\<lambda>j. f ((x # xs) ! j)) [Suc a..<Suc b] = map (\<lambda>j. f (xs ! j)) [a..<b]"
  by (simp add: map_Suc_upt [symmetric] comp_def del: upt_Suc)

lemma combinations2_index:
  "combinations2 xs =
     concat (map (\<lambda>i. map (\<lambda>j. (xs ! i, xs ! j)) [Suc i..<length xs]) [0..<length xs])"
proof (induction xs)
  case Nil
  then show ?case by simp
next
  case (Cons x xs)
  let ?n = "length xs"
  let ?row = "\<lambda>i. map (\<lambda>j. ((x # xs) ! i, (x # xs) ! j)) [Suc i..<Suc ?n]"
  have up: "[0..<Suc ?n] = 0 # map Suc [0..<?n]"
    by (simp add: upt_conv_Cons map_Suc_upt del: upt_Suc)
  have first: "?row 0 = map (Pair x) xs"
  proof -
    have "?row 0 = map (\<lambda>j. (x, xs ! j)) [0..<?n]"
      using nth_shift [of "Pair x" x xs 0 ?n] by simp
    also have "\<dots> = map (Pair x) (map (\<lambda>j. xs ! j) [0..<?n])"
      by (simp add: comp_def)
    also have "\<dots> = map (Pair x) xs"
      by (simp add: map_nth)
    finally show ?thesis .
  qed
  have row: "?row (Suc i) = map (\<lambda>j. (xs ! i, xs ! j)) [Suc i..<?n]" for i
    using nth_shift [of "Pair (xs ! i)" x xs "Suc i" ?n] by simp
  have "concat (map ?row [0..<Suc ?n]) = ?row 0 @ concat (map ?row (map Suc [0..<?n]))"
    unfolding up by simp
  also have "map ?row (map Suc [0..<?n]) = map (\<lambda>i. ?row (Suc i)) [0..<?n]"
    by (simp add: comp_def)
  also have "\<dots> = map (\<lambda>i. map (\<lambda>j. (xs ! i, xs ! j)) [Suc i..<?n]) [0..<?n]"
    using row by simp
  finally have "concat (map ?row [0..<Suc ?n]) = map (Pair x) xs @ combinations2 xs"
    using first Cons.IH by simp
  then show ?case by simp
qed

lemma combinations2_nonempty: "1 < length xs \<Longrightarrow> combinations2 xs \<noteq> []"
  by (cases xs) auto

lemma combinations2_map: "combinations2 (map f xs) = map (map_prod f f) (combinations2 xs)"
  by (induction xs) auto

subsection \<open>Single objects\<close>

lemma process_object_terms_fst:
  "fst (process_object_terms e ep i full v w)
     = Inr (object_terms_of e ep full i, object_success e ep full i)"
  by (simp add: process_object_terms_eq)

lemma raised_is_failure:
  assumes "fst (get_terms_from_endpoint e ep (str_int i) full w) = Inl ex"
  shows "fst (process_object_terms e ep i full v w) = Inr ([], False)"
  using assms by (auto simp: process_object_terms_def split: prod.splits sum.splits)

lemma few_terms_outcome:
  assumes "http e (ep @ ''/'' @ oid) [] = JsonBody (JsonObject ids (TagsArray tags))"
    and "tag_terms tags = Inr terms"
  shows "fst (get_terms_from_endpoint e ep oid False w) =
           Inr (if length terms > 1
                then Some (map (\<lambda>pair. PairDict (fst pair) (snd pair)) (combinations2 terms))
                else None)"
  using assms
  by (simp add: get_terms_from_endpoint_def get_api_data_def extract_terms_def
        subscript_tags_def)

lemma filter_removeAll_failed:
  "\<not> P i \<Longrightarrow> filter P xs = filter P (removeAll i xs)"
  by (induction xs) auto

lemma count_failed:
  "\<not> P i \<Longrightarrow>
     length (filter (\<lambda>j. \<not> P j) xs)
       = count_list xs i + length (filter (\<lambda>j. \<not> P j) (removeAll i xs))"
  by (induction xs) auto

lemma truthy_Some: "truthy (Some xs) = (xs \<noteq> [])"
  by (cases xs) auto

lemma raw_outcome:
  "object_terms_of e ep True i = map TermStr (fetched_terms e ep i)
   \<and> object_success e ep True i = (fetched_terms e ep i \<noteq> [])"
  by (auto simp: object_terms_of_def object_success_def process_object_terms_def
        get_terms_from_endpoint_def get_api_data_def extract_terms_def subscript_tags_def
        fetched_terms_def truthy_Some
      split: http_result.splits json_body.splits tags_member.splits sum.splits)

lemma pairs_outcome:
  "object_terms_of e ep False i =
     (if 1 < length (fetched_terms e ep i)
      then map (\<lambda>pair. PairDict (fst pair) (snd pair)) (combinations2 (fetched_terms e ep i))
      else [])
   \<and> object_success e ep False i = (1 < length (fetched_terms e ep i))"
  by (auto simp: object_terms_of_def object_success_def process_object_terms_def
        get_terms_from_endpoint_def get_api_data_def extract_terms_def subscript_tags_def
        fetched_terms_def truthy_Some combinations2_nonempty
      split: http_result.splits json_body.splits tags_member.splits sum.splits)

lemma raw_success_fun:
  "object_success e ep True = (\<lambda>i. fetched_terms e ep i \<noteq> [])"
  by (rule ext) (simp add: raw_outcome)

lemma raw_terms_fun:
  "object_terms_of e ep True = (\<lambda>i. map TermStr (fetched_terms e ep i))"
  by (rule ext) (simp add: raw_outcome)

subsection \<open>The edge table\<close>

lemma those_pairs:
  "those (map source_target (map (\<lambda>p. PairDict (fst p) (snd p)) ps)) = Some ps"
  by (induction ps) auto

lemma groupby_size_keys:
  "map (\<lambda>row. (fst row, fst (snd row))) (groupby_size ps) = sort (remdups ps)"
  by (simp add: groupby_size_def comp_def)

lemma groupby_size_set:
  "set (groupby_size ps) = (\<lambda>k. (fst k, snd k, count_list ps k)) ` set ps"
  by (simp add: groupby_size_def)

lemma save_results_csv:
  assumes "ps \<noteq> []" "csv \<noteq> []" "dirname_abspath e csv \<in> dirs w"
    and "save_file \<noteq> Some csv" and "report \<longrightarrow> report_file \<noteq> csv"
  shows "files (snd (save_results e (ListV (map (\<lambda>p. PairDict (fst p) (snd p)) ps)) (Some csv)
             save_file report report_file tot n False w)) csv
          = Some (CsvFile (groupby_size ps))"
proof -
  obtain p ps' where ps: "ps = p # ps'"
    using assms(1) by (cases ps) auto
  have step: "save_csv_step e (ListV (map (\<lambda>p. PairDict (fst p) (snd p)) ps)) csv w
      = (Inr (), w\<lparr>files := (files w)(csv \<mapsto> CsvFile (groupby_size ps))\<rparr>)"
    using assms(3) those_pairs [of ps]
    by (simp add: save_csv_step_def to_csv_def ps)
  show ?thesis
    using assms(2,4,5) step
    by (auto simp: save_results_def open_write_def split: option.splits)
qed

lemma save_results_csv_empty:
  assumes "save_file \<noteq> Some csv" and "report \<longrightarrow> report_file \<noteq> csv"
  shows "files (snd (save_results e (ListV []) (Some csv) save_file report report_file tot n
             False w)) csv = files w csv"
  using assms
  by (auto simp: save_results_def save_csv_step_def open_write_def seq_def split: option.splits)

lemma get_terms_pairs_csv:
  assumes run: "get_terms_pairs e cep params oep report rf sf (Some csv) v False limit w
                  = (Inr (ListV (map (\<lambda>p. PairDict (fst p) (snd p)) qs), n), w')"
    and noalias: "sf \<noteq> Some csv" "report \<longrightarrow> rf \<noteq> csv" and csv: "csv \<noteq> []"
  shows "files w' csv = (if qs = [] then files w csv else Some (CsvFile (groupby_size qs)))"
proof -
  let ?ps = "map (\<lambda>p. PairDict (fst p) (snd p)) qs"
  from pairs_Inr_D [OF run] obtain objectIDs where
    val: "fst (validate_paths e [sf, Some csv, Some rf] w) = Inr ()"
    and ep: "str_truthy oep"
    and ids: "fst (get_object_ids e cep params limit blank_world) = Inr objectIDs"
    by blast
  from validated_three [OF val] obtain pf pc w1 where
    s: "sf = Some pf" "Some csv = Some pc" and
    v1: "validate_paths e [sf, Some csv, Some rf] w = (Inr (), w1)" and
    d1: "dirname_abspath e pc \<in> dirs w1"
    by blast
  have f1: "files w1 = files w"
    using validate_paths_keeps [of e "[sf, Some csv, Some rf]" w] v1 by simp
  from get_object_ids_at [OF ids, of w1] obtain w2 where
    g: "get_object_ids e cep params limit w1 = (Inr objectIDs, w2)" and d2: "dirs w2 = dirs w1"
    by blast
  have f2: "files w2 = files w1"
    using get_object_ids_fields(2) [of e cep params limit w1] g by simp
  show ?thesis
  proof (cases "no_ids objectIDs")
    case True
    with run v1 ep g have "?ps = []" "w' = w2"
      by (simp_all add: get_terms_pairs_def RateLimiter_init_2)
    then show ?thesis
      using f1 f2 by simp
  next
    case False
    from pairs_loop_result [OF batch_limiter_pos, of e "the oep" False v "the objectIDs" "[]" 0 w2]
    obtain terms k w3 where
      p: "pairs_loop e (the oep) False v (the objectIDs) batch_limiter [] 0 w2 = (Inr (terms, k), w3)"
      and d3: "dirs w3 = dirs w2" and f3: "files w3 = files w2"
      by auto
    obtain r4 w4 where sv: "save_results e (ListV terms) (Some csv) sf report rf
        (length (the objectIDs)) k False w3 = (r4, w4)"
      by (cases "save_results e (ListV terms) (Some csv) sf report rf
        (length (the objectIDs)) k False w3") auto
    from run False v1 ep g p sv have eq: "terms = ?ps" "w' = w4"
      by (cases r4; simp add: get_terms_pairs_def RateLimiter_init_2)+
    have w4: "w4 = snd (save_results e (ListV ?ps) (Some csv) sf report rf
        (length (the objectIDs)) k False w3)"
      using sv eq by simp
    show ?thesis
    proof (cases "qs = []")
      case True
      then show ?thesis
        using save_results_csv_empty [OF noalias, of e "length (the objectIDs)" k w3]
          w4 eq f1 f2 f3 by simp
    next
      case False
      have "dirname_abspath e csv \<in> dirs w3"
        using d1 d2 d3 s by simp
      from save_results_csv [OF False csv this noalias, of "length (the objectIDs)" k]
      show ?thesis
        using w4 eq False by simp
    qed
  qed
qed

subsection \<open>The offline deriver\<close>

lemma raw_pairs_loop_none:
  "list_all (\<lambda>kv. length (snd kv) \<le> 1) d \<Longrightarrow> raw_pairs_loop d terms_list = terms_list"
  by (induction d terms_list rule: raw_pairs_loop.induct) auto

lemma raw_pairs_loop_concat:
  "raw_pairs_loop d terms_list =
     terms_list @ concat (map (\<lambda>kv. if 1 < length (snd kv) then combinations2 (snd kv) else []) d)"
  by (induction d terms_list rule: raw_pairs_loop.induct) auto

lemma those_row_cells:
  "those (map row_cells (map (map_prod TermStr TermStr) qs)) = Some qs"
  by (induction qs) auto

lemma concat_filter_guard:
  "(\<And>i. c i \<Longrightarrow> b i) \<Longrightarrow>
     concat (map (\<lambda>i. if c i then g i else []) (filter b ids)) = concat (map g (filter c ids))"
  by (induction ids) auto

lemma raw_dump_pairs:
  "raw_pairs_loop (map (\<lambda>i. (i, map TermStr (fetched_terms e ep i)))
       (filter (\<lambda>i. fetched_terms e ep i \<noteq> []) ids)) []
     = map (map_prod TermStr TermStr)
         (concat (map (\<lambda>i. combinations2 (fetched_terms e ep i))
            (filter (\<lambda>i. 1 < length (fetched_terms e ep i)) ids)))"
proof -
  let ?ft = "fetched_terms e ep"
  have "raw_pairs_loop (map (\<lambda>i. (i, map TermStr (?ft i))) (filter (\<lambda>i. ?ft i \<noteq> []) ids)) []
      = concat (map (\<lambda>i. if 1 < length (?ft i) then map (map_prod TermStr TermStr) (combinations2 (?ft i)) else [])
          (filter (\<lambda>i. ?ft i \<noteq> []) ids))"
    by (simp add: raw_pairs_loop_concat comp_def combinations2_map cong: if_cong)
  also have "\<dots> = concat (map (\<lambda>i. map (map_prod TermStr TermStr) (combinations2 (?ft i)))
          (filter (\<lambda>i. 1 < length (?ft i)) ids))"
    by (rule concat_filter_guard) auto
  also have "\<dots> = map (map_prod TermStr TermStr)
         (concat (map (\<lambda>i. combinations2 (?ft i)) (filter (\<lambda>i. 1 < length (?ft i)) ids)))"
    by (simp add: map_concat comp_def)
  finally show ?thesis .
qed

lemma pairs_batch_terms:
  "concat (map (object_terms_of e ep False) (filter (object_success e ep False) ids))
     = map (\<lambda>pair. PairDict (fst pair) (snd pair))
         (concat (map (\<lambda>i. combinations2 (fetched_terms e ep i))
            (filter (\<lambda>i. 1 < length (fetched_terms e ep i)) ids)))"
proof -
  have "concat (map (object_terms_of e ep False) (filter (object_success e ep False) ids))
      = concat (map (\<lambda>i. map (\<lambda>pair. PairDict (fst pair) (snd pair))
            (combinations2 (fetched_terms e ep i)))
          (filter (\<lambda>i. 1 < length (fetched_terms e ep i)) ids))"
    by (induction ids) (simp_all add: pairs_outcome)
  then show ?thesis
    by (simp add: map_concat comp_def)
qed

lemma raw_batch_dict:
  assumes "distinct ids"
  shows "foldl (\<lambda>d i. AList.update i (object_terms_of e ep True i) d) []
           (filter (object_success e ep True) ids)
         = map (\<lambda>i. (i, map TermStr (fetched_terms e ep i)))
             (filter (\<lambda>i. fetched_terms e ep i \<noteq> []) ids)"
proof -
  have "distinct (filter (object_success e ep True) ids)"
    using assms by simp
  from foldl_update_fresh [OF this, of "[]" "object_terms_of e ep True"]
  show ?thesis
    by (simp add: raw_success_fun raw_terms_fun)
qed

lemma create_term_pairs_csv:
  assumes "files w raw = Some (JsonFile (DictV d))"
    and "raw_pairs_loop d [] = map (map_prod TermStr TermStr) qs"
    and "dirname_abspath e csv \<in> dirs w"
  shows "files (snd (create_term_pairs e raw csv w)) csv
           = (if qs = [] then files w csv else Some (CsvFile (groupby_size qs)))"
  using assms those_row_cells [of qs]
  by (simp add: create_term_pairs_def to_csv_def Let_def)

subsection \<open>The concrete collection\<close>

lemma demo_validate:
  "fst (validate_paths demo_env [Some ''raw.json'', Some ''pairs.csv'', Some ''report.txt''] demo_world) = Inr ()"
  by (simp add: demo_env_def demo_world_def)

lemma demo_listing:
  "fst (get_object_ids demo_env ''api/objects'' None None blank_world) = Inr (Some [1, 2, 3, 4, 5])"
  by (simp add: get_object_ids_def get_api_data_def demo_env_def)

lemma demo_http_error:
  "fst (get_terms_from_endpoint demo_env ''api/objects'' (str_int 3) False demo_world)
     = Inl (Exception ''HTTP request failed'')"
  by (simp add: get_terms_from_endpoint_def get_api_data_def demo_env_def str_int_def
        digit_char_def)

lemma demo_object_2:
  "http demo_env (''api/objects'' @ ''/'' @ str_int 2) []
     = JsonBody (JsonObject IdsMissing (TagsArray [TagObject (Some ''B'')]))"
  by (simp add: demo_env_def str_int_def digit_char_def)

lemma demo_tags_2: "tag_terms [TagObject (Some ''B'')] = Inr [''B'']"
  by (simp add: subscript_term_def)

lemma demo_object_1:
  "http demo_env (''api/objects'' @ ''/'' @ ''1'') []
     = JsonBody (JsonObject IdsMissing
         (TagsArray [TagObject (Some ''A''), TagObject (Some ''B''), TagObject (Some ''C'')]))"
  by (simp add: demo_env_def)

lemma demo_tags_1:
  "tag_terms [TagObject (Some ''A''), TagObject (Some ''B''), TagObject (Some ''C'')]
     = Inr [''A'', ''B'', ''C'']"
  by (simp add: subscript_term_def)

lemma demo_outcomes:
  "process_object_terms demo_env ''api/objects'' 1 False v w =
     (Inr ([PairDict ''A'' ''B'', PairDict ''A'' ''C'', PairDict ''B'' ''C''], True),
      send_request demo_env ''api/objects/1'' w)"
  "process_object_terms demo_env ''api/objects'' 2 False v w =
     (Inr ([], False), send_request demo_env ''api/objects/2'' w)"
  "process_object_terms demo_env ''api/objects'' 3 False v w =
     (Inr ([], False), send_request demo_env ''api/objects/3'' w)"
  "process_object_terms demo_env ''api/objects'' 4 False v w =
     (Inr ([PairDict ''B'' ''A''], True), send_request demo_env ''api/objects/4'' w)"
  "process_object_terms demo_env ''api/objects'' 5 False v w =
     (Inr ([], False), send_request demo_env ''api/objects/5'' w)"
  by (simp_all add: process_object_terms_def get_terms_from_endpoint_def get_api_data_def
        extract_terms_def subscript_tags_def subscript_term_def demo_env_def str_int_def
        digit_char_def)

lemma demo_latency: "latency demo_env u = 100000"
  by (simp add: demo_env_def)

lemma demo_get_object_ids:
  "get_object_ids demo_env ''api/objects'' None None w
     = (Inr (Some [1, 2, 3, 4, 5]), send_request demo_env ''api/objects'' w)"
  by (simp add: get_object_ids_def get_api_data_def demo_env_def)

lemma demo_dirname: "dirname_abspath demo_env p = [''data'']"
  by (simp add: demo_env_def)

lemmas demo_batch_simps =
  get_terms_pairs_def RateLimiter_init_2 demo_get_object_ids demo_dirname
  demo_outcomes wait_if_necessary_def send_request_def demo_latency
  batch_limiter_def demo_world_def second_def save_results_def save_csv_step_def
  to_csv_def open_write_def

lemma demo_batch_value:
  "fst (get_terms_pairs demo_env ''api/objects'' None (Some ''api/objects'') True ''report.txt''
       (Some ''pairs.json'') (Some ''pairs.csv'') False False None demo_world)
     = Inr (ListV [PairDict ''A'' ''B'', PairDict ''A'' ''C'', PairDict ''B'' ''C'',
                    PairDict ''B'' ''A''], 3)"
  by (simp add: demo_batch_simps)

lemma demo_batch_requests:
  "requests (snd (get_terms_pairs demo_env ''api/objects'' None (Some ''api/objects'') True
       ''report.txt'' (Some ''pairs.json'') (Some ''pairs.csv'') False False None demo_world))
     = [(0, ''api/objects''), (100000, ''api/objects/1''),
        (200000, ''api/objects/2''), (1100000, ''api/objects/3''),
        (1200000, ''api/objects/4''), (1300000, ''api/objects/5'')]"
  by (simp add: demo_batch_simps)

lemma demo_batch_csv:
  "files (snd (get_terms_pairs demo_env ''api/objects'' None (Some ''api/objects'') True
       ''report.txt'' (Some ''pairs.json'') (Some ''pairs.csv'') False False None demo_world))
     ''pairs.csv''
     = Some (CsvFile (groupby_size
         [(''A'', ''B''), (''A'', ''C''), (''B'', ''C''), (''B'', ''A'')]))"
  by (simp add: demo_batch_simps)

lemma demo_edges:
  "groupby_size [(''A'', ''B''), (''A'', ''C''), (''B'', ''C''), (''B'', ''A'')]
     = [(''A'', ''B'', 1), (''A'', ''C'', 1), (''B'', ''A'', 1), (''B'', ''C'', 1)]"
  by code_simp

lemma demo_outcomes_raw:
  "process_object_terms demo_env ''api/objects'' 1 True v w =
     (Inr ([TermStr ''A'', TermStr ''B'', TermStr ''C''], True),
      send_request demo_env ''api/objects/1'' w)"
  "process_object_terms demo_env ''api/objects'' 2 True v w =
     (Inr ([TermStr ''B''], True), send_request demo_env ''api/objects/2'' w)"
  "process_object_terms demo_env ''api/objects'' 3 True v w =
     (Inr ([], False), send_request demo_env ''api/objects/3'' w)"
  "process_object_terms demo_env ''api/objects'' 4 True v w =
     (Inr ([TermStr ''B'', TermStr ''A''], True), send_request demo_env ''api/objects/4'' w)"
  "process_object_terms demo_env ''api/objects'' 5 True v w =
     (Inr ([], False), send_request demo_env ''api/objects/5'' w)"
  by (simp_all add: process_object_terms_def get_terms_from_endpoint_def get_api_data_def
        extract_terms_def subscript_tags_def subscript_term_def demo_env_def str_int_def
        digit_char_def)

lemma demo_raw_value:
  "fst (get_terms_from_collection demo_env ''api/objects'' None (Some ''api/objects'') True
       ''report.txt'' (Some ''raw.json'') (Some ''unused.csv'') False None demo_world)
     = Inr (DictV [(1, [TermStr ''A'', TermStr ''B'', TermStr ''C'']),
                   (2, [TermStr ''B'']),
                   (4, [TermStr ''B'', TermStr ''A''])], 2)"
  by (simp add: get_terms_from_collection_def RateLimiter_init_2 demo_get_object_ids
        demo_dirname demo_outcomes_raw wait_if_necessary_def send_request_def demo_latency
        batch_limiter_def demo_world_def second_def save_results_def open_write_def)

section \<open>Claims\<close>

text \<open>
  C1.  When path validation passes, the object endpoint is given and the listing call
  succeeds, both batch functions return, and the returned failure count is the number of
  listed identifiers whose processing did not succeed; successes plus failures is the
  number of identifiers considered.  In raw mode the dict has one entry per successful
  identifier, so with pairwise distinct identifiers (the data model's uniqueness of
  ObjectID) the size of the dict plus the failure count is the number of identifiers.
\<close>

theorem batch_counts_add_up:
  assumes "fst (validate_paths e [save_file, save_csv, Some report_file] w) = Inr ()"
    and "str_truthy object_endpoint"
    and "fst (get_object_ids e collection_endpoint collection_params limit blank_world) = Inr objectIDs"
  shows "(\<exists>r none_count w'.
            get_terms_from_collection e collection_endpoint collection_params object_endpoint report
              report_file save_file save_csv verbose limit w = (Inr (r, none_count), w')
          \<and> none_count = length (filter (\<lambda>i. \<not> object_success e (the object_endpoint) True i)
                (listed_ids e collection_endpoint collection_params limit))
          \<and> length (filter (object_success e (the object_endpoint) True)
                (listed_ids e collection_endpoint collection_params limit)) + none_count
              = length (listed_ids e collection_endpoint collection_params limit)
          \<and> len r = card (set (filter (object_success e (the object_endpoint) True)
                (listed_ids e collection_endpoint collection_params limit)))
          \<and> (distinct (listed_ids e collection_endpoint collection_params limit) \<longrightarrow>
               len r + none_count = length (listed_ids e collection_endpoint collection_params limit)))
       \<and> (\<exists>r none_count w'.
            get_terms_pairs e collection_endpoint collection_params object_endpoint report
              report_file save_file save_csv verbose return_full_list limit w
              = (Inr (r, none_count), w')
          \<and> none_count = length (filter (\<lambda>i. \<not> object_success e (the object_endpoint) return_full_list i)
                (listed_ids e collection_endpoint collection_params limit))
          \<and> length (filter (object_success e (the object_endpoint) return_full_list)
                (listed_ids e collection_endpoint collection_params limit)) + none_count
              = length (listed_ids e collection_endpoint collection_params limit))"
proof -
  let ?ids = "listed_ids e collection_endpoint collection_params limit"
  let ?ok = "object_success e (the object_endpoint) True"
  let ?d = "foldl (\<lambda>d i. AList.update i (object_terms_of e (the object_endpoint) True i) d) []
              (filter ?ok ?ids)"
  let ?r = "if ?ids = [] then ListV [] else DictV ?d"
  have split: "\<And>P. length (filter P ?ids) + length (filter (\<lambda>i. \<not> P i) ?ids) = length ?ids"
    by (rule sum_length_filter_compl)
  have lenr: "len ?r = card (set (filter ?ok ?ids))"
    by (simp add: foldl_update_length)
  have "distinct ?ids \<Longrightarrow> card (set (filter ?ok ?ids)) = length (filter ?ok ?ids)"
    by (metis distinct_card distinct_filter)
  with lenr split [of ?ok]
  have dist: "distinct ?ids \<longrightarrow>
      len ?r + length (filter (\<lambda>i. \<not> ?ok i) ?ids) = length ?ids"
    by simp
  from get_terms_from_collection_returns [OF assms, of report verbose]
  obtain w1 where raw: "get_terms_from_collection e collection_endpoint collection_params
      object_endpoint report report_file save_file save_csv verbose limit w
      = (Inr (?r, length (filter (\<lambda>i. \<not> ?ok i) ?ids)), w1)"
    by blast
  from get_terms_pairs_returns [OF assms, of report verbose return_full_list]
  obtain r2 w2 where pairs: "get_terms_pairs e collection_endpoint collection_params
      object_endpoint report report_file save_file save_csv verbose return_full_list limit w
      = (Inr (r2, length (filter (\<lambda>i. \<not> object_success e (the object_endpoint) return_full_list i) ?ids)), w2)"
    by blast
  have A: "\<exists>r none_count w'.
            get_terms_from_collection e collection_endpoint collection_params object_endpoint report
              report_file save_file save_csv verbose limit w = (Inr (r, none_count), w')
          \<and> none_count = length (filter (\<lambda>i. \<not> ?ok i) ?ids)
          \<and> length (filter ?ok ?ids) + none_count = length ?ids
          \<and> len r = card (set (filter ?ok ?ids))
          \<and> (distinct ?ids \<longrightarrow> len r + none_count = length ?ids)"
    using raw split [of ?ok] lenr dist by blast
  have B: "\<exists>r none_count w'.
            get_terms_pairs e collection_endpoint collection_params object_endpoint report
              report_file save_file save_csv verbose return_full_list limit w
              = (Inr (r, none_count), w')
          \<and> none_count = length (filter (\<lambda>i. \<not> object_success e (the object_endpoint) return_full_list i) ?ids)
          \<and> length (filter (object_success e (the object_endpoint) return_full_list) ?ids) + none_count
              = length ?ids"
    using pairs split [of "object_success e (the object_endpoint) return_full_list"] by blast
  from A B show ?thesis by blast
qed

theorem batch_counts_add_up_witness:
  "fst (validate_paths demo_env [Some ''raw.json'', Some ''pairs.csv'', Some ''report.txt''] demo_world) = Inr ()
   \<and> str_truthy (Some ''api/objects'')
   \<and> fst (get_object_ids demo_env ''api/objects'' None None blank_world) = Inr (Some [1, 2, 3, 4, 5])
   \<and> distinct (listed_ids demo_env ''api/objects'' None None)
   \<and> (\<exists>r none_count w'.
         get_terms_from_collection demo_env ''api/objects'' None (Some ''api/objects'') True
           ''report.txt'' (Some ''raw.json'') (Some ''pairs.csv'') False None demo_world
           = (Inr (r, none_count), w')
         \<and> len r + none_count = length (listed_ids demo_env ''api/objects'' None None))
   \<and> (\<exists>r none_count w'.
         get_terms_pairs demo_env ''api/objects'' None (Some ''api/objects'') True
           ''report.txt'' (Some ''raw.json'') (Some ''pairs.csv'') False False None demo_world
           = (Inr (r, none_count), w')
         \<and> length (filter (object_success demo_env ''api/objects'' False)
               (listed_ids demo_env ''api/objects'' None None)) + none_count
            = length (listed_ids demo_env ''api/objects'' None None))"
proof -
  have h2: "str_truthy (Some ''api/objects'')" by simp
  have d: "distinct (listed_ids demo_env ''api/objects'' None None)"
    using listed_ids_eq [OF demo_listing] by simp
  from batch_counts_add_up [OF demo_validate h2 demo_listing, of True False False] d
  show ?thesis
    using demo_validate h2 demo_listing by (simp; blast)
qed

text \<open>
  C2.  Both batch loops return for every list of identifiers and every answer of the API:
  the result accumulates what the successful objects gave, in input order, and the counter
  is the number of objects that did not succeed.  An exception raised while fetching or
  extracting an object's terms (transport, decoding, missing or malformed fields) never
  leaves \<^verbatim>\<open>process_object_terms\<close>: the object is reported as not successful.
\<close>

theorem batch_loop_absorbs_failures:
  "(\<exists>w'. pairs_loop e ep full v ids batch_limiter [] 0 w =
            (Inr (concat (map (object_terms_of e ep full) (filter (object_success e ep full) ids)),
                  length (filter (\<lambda>i. \<not> object_success e ep full i) ids)), w'))
   \<and> (\<exists>w'. collection_loop e ep v ids batch_limiter [] 0 w =
            (Inr (foldl (\<lambda>d i. AList.update i (object_terms_of e ep True i) d) []
                    (filter (object_success e ep True) ids),
                  length (filter (\<lambda>i. \<not> object_success e ep True i) ids)), w'))
   \<and> (\<forall>i ex. fst (get_terms_from_endpoint e ep (str_int i) full w) = Inl ex \<longrightarrow>
          fst (process_object_terms e ep i full v w) = Inr ([], False)
          \<and> \<not> object_success e ep full i)"
proof -
  have A: "\<exists>w'. pairs_loop e ep full v ids batch_limiter [] 0 w =
            (Inr (concat (map (object_terms_of e ep full) (filter (object_success e ep full) ids)),
                  length (filter (\<lambda>i. \<not> object_success e ep full i) ids)), w')"
    using pairs_loop_result [OF batch_limiter_pos, of e ep full v ids "[]" 0 w] by auto
  have B: "\<exists>w'. collection_loop e ep v ids batch_limiter [] 0 w =
            (Inr (foldl (\<lambda>d i. AList.update i (object_terms_of e ep True i) d) []
                    (filter (object_success e ep True) ids),
                  length (filter (\<lambda>i. \<not> object_success e ep True i) ids)), w')"
    using collection_loop_result [OF batch_limiter_pos, of e ep v ids "[]" 0 w] by auto
  have C: "fst (process_object_terms e ep i full v w) = Inr ([], False)
          \<and> \<not> object_success e ep full i"
    if "fst (get_terms_from_endpoint e ep (str_int i) full w) = Inl ex" for i ex
    using raised_is_failure [OF that, of v] process_object_terms_fst [of e ep i full v w]
    by simp
  from A B C show ?thesis by blast
qed

text \<open>
  Object 3 of the concrete collection answers with an HTTP error status.
\<close>

theorem batch_loop_absorbs_failures_witness:
  "fst (get_terms_from_endpoint demo_env ''api/objects'' (str_int 3) False demo_world)
     = Inl (Exception ''HTTP request failed'')
   \<and> fst (process_object_terms demo_env ''api/objects'' 3 False False demo_world) = Inr ([], False)
   \<and> \<not> object_success demo_env ''api/objects'' False 3
   \<and> (\<exists>w'. pairs_loop demo_env ''api/objects'' False False [3, 1] batch_limiter [] 0 demo_world =
         (Inr (concat (map (object_terms_of demo_env ''api/objects'' False)
                 (filter (object_success demo_env ''api/objects'' False) [3, 1])),
               length (filter (\<lambda>i. \<not> object_success demo_env ''api/objects'' False i) [3, 1])), w'))"
  using batch_loop_absorbs_failures [of demo_env "''api/objects''" False False "[3, 1]" demo_world]
    demo_http_error
  by blast

text \<open>
  C3 as stated fails.  Object 2 of the concrete collection is fetched without error and
  has one term; extraction returns \<^verbatim>\<open>None\<close>, and a batch over this object alone ends with a
  failure count of 1.
\<close>

theorem single_term_object_counterexample:
  "fst (get_terms_from_endpoint demo_env ''api/objects'' (str_int 2) False blank_world) = Inr None
   \<and> fst (pairs_loop demo_env ''api/objects'' False False [2] batch_limiter [] 0 blank_world)
       = Inr ([], 1)"
  by (simp add: get_terms_from_endpoint_def get_api_data_def extract_terms_def
        subscript_tags_def subscript_term_def demo_env_def str_int_def digit_char_def
        process_object_terms_def wait_if_necessary_def batch_limiter_def blank_world_def
        send_request_def)

text \<open>
  C3, amended.  For an object whose fetch succeeds and whose tags give 0 or 1 terms,
  extraction in pairs mode returns \<^verbatim>\<open>None\<close> without raising, \<^verbatim>\<open>process_object_terms\<close>
  reports no terms and no success, and a pairs batch over any list of identifiers gets no
  pair from the object and counts every occurrence of it in the failure count.
\<close>

theorem few_terms_counted_as_failed:
  assumes "http e (ep @ ''/'' @ str_int i) [] = JsonBody (JsonObject ids (TagsArray tags))"
    and "tag_terms tags = Inr terms"
    and "length terms \<le> 1"
  shows "fst (get_terms_from_endpoint e ep (str_int i) False w) = Inr None
       \<and> fst (process_object_terms e ep i False v w) = Inr ([], False)
       \<and> (\<exists>w'. pairs_loop e ep False v objectIDs batch_limiter [] 0 w =
             (Inr (concat (map (object_terms_of e ep False)
                     (filter (object_success e ep False) (removeAll i objectIDs))),
                   count_list objectIDs i
                   + length (filter (\<lambda>j. \<not> object_success e ep False j) (removeAll i objectIDs))),
              w'))"
proof -
  have g: "fst (get_terms_from_endpoint e ep (str_int i) False w) = Inr None" for w
    using few_terms_outcome [OF assms(1,2)] assms(3) by simp
  have p: "fst (process_object_terms e ep i False v w) = Inr ([], False)"
    using g [of w] by (auto simp: process_object_terms_def split: prod.splits sum.splits)
  then have fail: "\<not> object_success e ep False i"
    using process_object_terms_fst [of e ep i False v w] by simp
  from pairs_loop_result [OF batch_limiter_pos, of e ep False v objectIDs "[]" 0 w]
  obtain w' where "pairs_loop e ep False v objectIDs batch_limiter [] 0 w =
      (Inr (concat (map (object_terms_of e ep False) (filter (object_success e ep False) objectIDs)),
            length (filter (\<lambda>j. \<not> object_success e ep False j) objectIDs)), w')"
    by auto
  then have "pairs_loop e ep False v objectIDs batch_limiter [] 0 w =
      (Inr (concat (map (object_terms_of e ep False)
              (filter (object_success e ep False) (removeAll i objectIDs))),
            count_list objectIDs i
            + length (filter (\<lambda>j. \<not> object_success e ep False j) (removeAll i objectIDs))), w')"
    using fail filter_removeAll_failed [of "object_success e ep False" i objectIDs]
      count_failed [of "object_success e ep False" i objectIDs]
    by simp
  with g p show ?thesis by blast
qed

text \<open>
  Object 2 of the concrete collection, listed twice.
\<close>

theorem few_terms_counted_as_failed_witness:
  "http demo_env (''api/objects'' @ ''/'' @ str_int 2) []
     = JsonBody (JsonObject IdsMissing (TagsArray [TagObject (Some ''B'')]))
   \<and> tag_terms [TagObject (Some ''B'')] = Inr [''B'']
   \<and> length [''B''] \<le> 1
   \<and> fst (process_object_terms demo_env ''api/objects'' 2 False False demo_world) = Inr ([], False)
   \<and> (\<exists>w'. pairs_loop demo_env ''api/objects'' False False [2, 2] batch_limiter [] 0 demo_world =
         (Inr ([], 2), w'))"
proof -
  have l: "length [''B''] \<le> 1" by simp
  from few_terms_counted_as_failed [OF demo_object_2 demo_tags_2 l, of demo_world False "[2, 2]"]
  show ?thesis
    using demo_object_2 demo_tags_2 by (simp del: pairs_loop.simps add: numeral_2_eq_2)
qed

text \<open>
  C4.  For an object whose tags give at least two pairwise distinct terms, extraction in
  pairs mode returns the pairs of \<open>combinations2\<close>: there are \<open>n choose 2\<close> of them, no pair
  has equal members, no two pairs are equal as unordered pairs, and the sequence is the
  pairs of positions \<open>i < j\<close> in lexicographic order of the input, a function of the term
  list alone.  The terms A, B, C give (A,B), (A,C), (B,C).
\<close>

theorem pairs_of_distinct_terms:
  assumes "http e (ep @ ''/'' @ oid) [] = JsonBody (JsonObject ids (TagsArray tags))"
    and "tag_terms tags = Inr terms"
    and "2 \<le> length terms"
    and "distinct terms"
  shows "fst (get_terms_from_endpoint e ep oid False w)
           = Inr (Some (map (\<lambda>pair. PairDict (fst pair) (snd pair)) (combinations2 terms)))
       \<and> length (combinations2 terms) = length terms choose 2
       \<and> (\<forall>pair \<in> set (combinations2 terms). fst pair \<noteq> snd pair)
       \<and> distinct (map (\<lambda>pair. {fst pair, snd pair}) (combinations2 terms))
       \<and> combinations2 terms =
           concat (map (\<lambda>i. map (\<lambda>j. (terms ! i, terms ! j)) [Suc i..<length terms])
                   [0..<length terms])
       \<and> (terms = [A, B, C] \<longrightarrow> combinations2 terms = [(A, B), (A, C), (B, C)])"
proof -
  have "fst (get_terms_from_endpoint e ep oid False w)
           = Inr (Some (map (\<lambda>pair. PairDict (fst pair) (snd pair)) (combinations2 terms)))"
    using few_terms_outcome [OF assms(1,2)] assms(3) by simp
  moreover have "\<forall>pair \<in> set (combinations2 terms). fst pair \<noteq> snd pair"
    using combinations2_no_self [OF assms(4)] by auto
  moreover have "terms = [A, B, C] \<longrightarrow> combinations2 terms = [(A, B), (A, C), (B, C)]"
    by simp
  ultimately show ?thesis
    using length_combinations2 [of terms] combinations2_unordered_distinct [OF assms(4)]
      combinations2_index [of terms]
    by blast
qed

text \<open>
  Object 1 of the concrete collection has the terms A, B, C.
\<close>

theorem pairs_of_distinct_terms_witness:
  "http demo_env (''api/objects'' @ ''/'' @ ''1'') []
     = JsonBody (JsonObject IdsMissing
         (TagsArray [TagObject (Some ''A''), TagObject (Some ''B''), TagObject (Some ''C'')]))
   \<and> tag_terms [TagObject (Some ''A''), TagObject (Some ''B''), TagObject (Some ''C'')]
       = Inr [''A'', ''B'', ''C'']
   \<and> 2 \<le> length [''A'', ''B'', ''C'']
   \<and> distinct [''A'', ''B'', ''C'']
   \<and> fst (get_terms_from_endpoint demo_env ''api/objects'' ''1'' False demo_world)
       = Inr (Some [PairDict ''A'' ''B'', PairDict ''A'' ''C'', PairDict ''B'' ''C''])
   \<and> length (combinations2 [''A'', ''B'', ''C'']) = 3"
proof -
  have l: "2 \<le> length [''A'', ''B'', ''C'']" by simp
  have d: "distinct [''A'', ''B'', ''C'']" by simp
  from pairs_of_distinct_terms [OF demo_object_1 demo_tags_1 l d, of demo_world "''A''" "''B''" "''C''"]
  have r: "fst (get_terms_from_endpoint demo_env ''api/objects'' ''1'' False demo_world)
       = Inr (Some (map (\<lambda>pair. PairDict (fst pair) (snd pair)) (combinations2 [''A'', ''B'', ''C''])))"
    and n: "length (combinations2 [''A'', ''B'', ''C'']) = length [''A'', ''B'', ''C''] choose 2"
    by blast+
  have "length [''A'', ''B'', ''C''] choose 2 = (3::nat)"
    by (simp add: numeral_3_eq_3 numeral_2_eq_2)
  with r n show ?thesis
    using demo_object_1 demo_tags_1 l d by simp
qed

text \<open>
  C5 as stated fails.  In the concrete collection object 1 has the terms A, B, C and
  object 4 the terms B, A; the edge table the pairs batch writes has a row for (A, B) and a
  row for (B, A), each of weight 1.
\<close>

theorem reversed_pair_separate_edge_counterexample:
  "files (snd (get_terms_pairs demo_env ''api/objects'' None (Some ''api/objects'') True
       ''report.txt'' (Some ''pairs.json'') (Some ''pairs.csv'') False False None demo_world))
     ''pairs.csv''
     = Some (CsvFile [(''A'', ''B'', 1), (''A'', ''C'', 1), (''B'', ''A'', 1), (''B'', ''C'', 1)])"
  using demo_batch_csv demo_edges by simp

text \<open>
  C5, amended.  \<^verbatim>\<open>save_results\<close> writes the pairs grouped by the ordered (Source, Target)
  as recorded, with no canonicalisation of member order: the table has one row per distinct
  ordered pair, in sorted key order, weighted by the number of occurrences of exactly that
  ordered pair (at least 1), so no two rows have the same ordered (Source, Target).  For
  distinct A and B a further pair (B, A) raises the weight of the edge (B, A) and leaves
  the edge (A, B) as it was.
\<close>

theorem edges_grouped_by_ordered_pair:
  assumes "ps \<noteq> []" and "csv \<noteq> []" and "dirname_abspath e csv \<in> dirs w"
    and "save_file \<noteq> Some csv" and "report \<longrightarrow> report_file \<noteq> csv"
  shows "files (snd (save_results e (ListV (map (\<lambda>p. PairDict (fst p) (snd p)) ps)) (Some csv)
             save_file report report_file total_objects none_count False w)) csv
          = Some (CsvFile (groupby_size ps))
       \<and> set (groupby_size ps) = (\<lambda>k. (fst k, snd k, count_list ps k)) ` set ps
       \<and> distinct (map (\<lambda>row. (fst row, fst (snd row))) (groupby_size ps))
       \<and> sorted (map (\<lambda>row. (fst row, fst (snd row))) (groupby_size ps))
       \<and> (\<forall>row \<in> set (groupby_size ps). 1 \<le> snd (snd row))
       \<and> (A \<noteq> B \<longrightarrow>
            (A, B, count_list ps (A, B) + 1) \<in> set (groupby_size (ps @ [(A, B)]))
            \<and> (B, A, count_list ps (B, A) + 1) \<in> set (groupby_size (ps @ [(B, A)]))
            \<and> (A, B, count_list ps (A, B) + 1) \<notin> set (groupby_size (ps @ [(B, A)])))"
proof -
  have w: "\<forall>row \<in> set (groupby_size ps). 1 \<le> snd (snd row)"
  proof
    fix row assume "row \<in> set (groupby_size ps)"
    then obtain k where "k \<in> set ps" "row = (fst k, snd k, count_list ps k)"
      by (auto simp: groupby_size_set)
    then show "1 \<le> snd (snd row)"
      using count_list_0_iff [of ps k] by (cases "count_list ps k") auto
  qed
  have r: "A \<noteq> B \<longrightarrow>
            (A, B, count_list ps (A, B) + 1) \<in> set (groupby_size (ps @ [(A, B)]))
            \<and> (B, A, count_list ps (B, A) + 1) \<in> set (groupby_size (ps @ [(B, A)]))
            \<and> (A, B, count_list ps (A, B) + 1) \<notin> set (groupby_size (ps @ [(B, A)]))"
    by (auto simp: groupby_size_set)
  have d: "distinct (map (\<lambda>row. (fst row, fst (snd row))) (groupby_size ps))"
    and s: "sorted (map (\<lambda>row. (fst row, fst (snd row))) (groupby_size ps))"
    by (simp_all add: groupby_size_keys)
  from save_results_csv [OF assms] groupby_size_set [of ps] d s w r
  show ?thesis by blast
qed

text \<open>
  The pair sequence (A, B), (B, A) gives two rows of weight 1 and no row of weight 2.
\<close>

theorem edges_grouped_by_ordered_pair_witness:
  "[(''A'', ''B''), (''B'', ''A'')] \<noteq> [] \<and> ''pairs.csv'' \<noteq> []
   \<and> dirname_abspath demo_env ''pairs.csv'' \<in> dirs demo_world
   \<and> None \<noteq> Some ''pairs.csv''
   \<and> files (snd (save_results demo_env (ListV [PairDict ''A'' ''B'', PairDict ''B'' ''A''])
          (Some ''pairs.csv'') None False ''report.txt'' 2 0 False demo_world)) ''pairs.csv''
       = Some (CsvFile [(''A'', ''B'', 1), (''B'', ''A'', 1)])
   \<and> (''A'', ''B'', 2) \<notin> set (groupby_size [(''A'', ''B''), (''B'', ''A'')])"
proof -
  have h1: "[(''A'', ''B''), (''B'', ''A'')] \<noteq> []" by simp
  have h2: "''pairs.csv'' \<noteq> []" by simp
  have h3: "dirname_abspath demo_env ''pairs.csv'' \<in> dirs demo_world"
    by (simp add: demo_env_def demo_world_def)
  have h4: "None \<noteq> Some ''pairs.csv''" by simp
  have h5: "False \<longrightarrow> ''report.txt'' \<noteq> ''pairs.csv''" by simp
  have g: "groupby_size [(''A'', ''B''), (''B'', ''A'')] = [(''A'', ''B'', 1), (''B'', ''A'', 1)]"
    by code_simp
  from edges_grouped_by_ordered_pair [OF h1 h2 h3 h4 h5, of 2 0 "''A''" "''B''"]
  have "files (snd (save_results demo_env
           (ListV (map (\<lambda>p. PairDict (fst p) (snd p)) [(''A'', ''B''), (''B'', ''A'')]))
           (Some ''pairs.csv'') None False ''report.txt'' 2 0 False demo_world)) ''pairs.csv''
         = Some (CsvFile (groupby_size [(''A'', ''B''), (''B'', ''A'')]))"
    by blast
  then show ?thesis
    using h3 g by simp
qed

text \<open>
  C7 at a concrete run.  With \<^verbatim>\<open>calls_per_second = 2\<close> and requests of a tenth of a second,
  the pairs batch over five objects sends the requests for objects 3, 4 and 5 at 1.1 s,
  1.2 s and 1.3 s: three calls within two tenths of a second.  The third call of the
  limiter explains it: entered at 0.3 s with two retained timestamps, it sleeps until
  1.1 s and records 0.3 s, the time read before the sleep.
\<close>

theorem rate_limit_exceeded:
  "requests (snd (get_terms_pairs demo_env ''api/objects'' None (Some ''api/objects'') True
       ''report.txt'' (Some ''pairs.json'') (Some ''pairs.csv'') False False None demo_world))
     = [(0, ''api/objects''), (100000, ''api/objects/1''),
        (200000, ''api/objects/2''), (1100000, ''api/objects/3''),
        (1200000, ''api/objects/4''), (1300000, ''api/objects/5'')]
   \<and> wait_if_necessary (batch_limiter\<lparr>calls_made := [100000, 200000]\<rparr>) (demo_world\<lparr>clock := 300000\<rparr>)
       = (Inr (batch_limiter\<lparr>calls_made := [100000, 200000, 300000]\<rparr>),
          demo_world\<lparr>clock := 1100000\<rparr>)"
  using demo_batch_requests
  by (simp add: wait_if_necessary_def second_def batch_limiter_def demo_world_def)

text \<open>
  C8 as stated fails.  With no object endpoint, a missing directory and a user who answers
  n, both batch functions raise the FileNotFoundError of path validation, not the
  ValueError of the endpoint check.
\<close>

theorem missing_endpoint_counterexample:
  "get_terms_pairs demo_env ''api/objects'' None None False ''report.txt'' (Some ''raw.json'')
       (Some ''pairs.csv'') False False None declined_world
     = (Inl FileNotFoundError, declined_world\<lparr>stdin := []\<rparr>)
   \<and> get_terms_from_collection demo_env ''api/objects'' None None False ''report.txt''
       (Some ''raw.json'') (Some ''pairs.csv'') False None declined_world
     = (Inl FileNotFoundError, declined_world\<lparr>stdin := []\<rparr>)"
  by (simp add: get_terms_pairs_def get_terms_from_collection_def declined_world_def
        demo_env_def lower_is_y_def)

text \<open>
  C8, amended.  With the object endpoint absent (None or empty) both batch functions end
  with an exception and send no request.  Path validation runs first: when it passes, the
  exception is the ValueError of the endpoint check; when it raises, its exception is the
  one raised.
\<close>

theorem missing_endpoint_aborts:
  assumes "\<not> str_truthy object_endpoint"
  shows "(\<exists>ex w'. get_terms_from_collection e collection_endpoint collection_params
              object_endpoint report report_file save_file save_csv verbose limit w = (Inl ex, w')
            \<and> requests w' = requests w
            \<and> (fst (validate_paths e [save_file, save_csv, Some report_file] w) = Inr ()
                 \<longrightarrow> ex = ValueError)
            \<and> (\<forall>ex'. fst (validate_paths e [save_file, save_csv, Some report_file] w) = Inl ex'
                 \<longrightarrow> ex = ex'))
       \<and> (\<exists>ex w'. get_terms_pairs e collection_endpoint collection_params
              object_endpoint report report_file save_file save_csv verbose return_full_list
              limit w = (Inl ex, w')
            \<and> requests w' = requests w
            \<and> (fst (validate_paths e [save_file, save_csv, Some report_file] w) = Inr ()
                 \<longrightarrow> ex = ValueError)
            \<and> (\<forall>ex'. fst (validate_paths e [save_file, save_csv, Some report_file] w) = Inl ex'
                 \<longrightarrow> ex = ex'))"
proof -
  obtain r w1 where v: "validate_paths e [save_file, save_csv, Some report_file] w = (r, w1)"
    by (cases "validate_paths e [save_file, save_csv, Some report_file] w") auto
  have rq: "requests w1 = requests w"
    using validate_paths_keeps [of e "[save_file, save_csv, Some report_file]" w] v by simp
  show ?thesis
  proof (cases r)
    case (Inl ex)
    then show ?thesis
      using v rq missing_endpoint_pairs [OF assms] missing_endpoint_collection [OF assms]
      by simp
  next
    case (Inr u)
    then show ?thesis
      using v rq missing_endpoint_pairs [OF assms] missing_endpoint_collection [OF assms]
      by simp
  qed
qed

text \<open>
  In the concrete world every directory exists, so the endpoint check raises ValueError.
\<close>

theorem missing_endpoint_aborts_witness:
  "\<not> str_truthy None
   \<and> fst (validate_paths demo_env [Some ''raw.json'', Some ''pairs.csv'', Some ''report.txt'']
         demo_world) = Inr ()
   \<and> (\<exists>w'. get_terms_pairs demo_env ''api/objects'' None None True ''report.txt''
         (Some ''raw.json'') (Some ''pairs.csv'') False False None demo_world = (Inl ValueError, w')
       \<and> requests w' = requests demo_world)
   \<and> (\<exists>w'. get_terms_from_collection demo_env ''api/objects'' None None True ''report.txt''
         (Some ''raw.json'') (Some ''pairs.csv'') False None demo_world = (Inl ValueError, w')
       \<and> requests w' = requests demo_world)"
proof -
  have h: "\<not> str_truthy None" by simp
  from missing_endpoint_aborts [OF h, of demo_env "''api/objects''" None True "''report.txt''"
      "Some ''raw.json''" "Some ''pairs.csv''" False None demo_world False]
  show ?thesis
    using demo_validate by auto
qed

text \<open>
  C9 at the failing inputs.  With \<^verbatim>\<open>save_file\<close> omitted both batch functions raise TypeError
  in \<^verbatim>\<open>validate_paths\<close>; with \<^verbatim>\<open>save_file\<close> given and \<^verbatim>\<open>save_csv\<close> omitted they raise as well
  and never return a result.  The last conjunct is the call of the raw-data script (no
  \<^verbatim>\<open>save_csv\<close>) in a world where the directory exists.
\<close>

theorem omitted_destination_raises:
  "fst (get_terms_from_collection e collection_endpoint collection_params object_endpoint report
          report_file None save_csv verbose limit w) = Inl TypeError
   \<and> fst (get_terms_pairs e collection_endpoint collection_params object_endpoint report
          report_file None save_csv verbose return_full_list limit w) = Inl TypeError
   \<and> (\<exists>ex. fst (get_terms_from_collection e collection_endpoint collection_params
          object_endpoint report report_file (Some p) None verbose limit w) = Inl ex)
   \<and> (\<exists>ex. fst (get_terms_pairs e collection_endpoint collection_params
          object_endpoint report report_file (Some p) None verbose return_full_list limit w)
          = Inl ex)
   \<and> fst (get_terms_from_collection demo_env ''api/objects'' (Some [(''departmentIds'', ''17'')])
          (Some ''api/objects'') True ''report.txt'' (Some ''raw.json'') None True None demo_world)
       = Inl TypeError"
  by (auto simp: get_terms_from_collection_def get_terms_pairs_def Let_def demo_world_def
        demo_env_def split: list.splits)

text \<open>
  C10.  When no object of the raw mapping has two or more terms, \<^verbatim>\<open>create_term_pairs\<close>
  raises UnboundLocalError (a NameError) at its return statement and leaves the world as
  it was: no file is written.
\<close>

theorem create_term_pairs_unbound:
  assumes "files w raw_terms_file = Some (JsonFile (DictV raw_terms_df))"
    and "list_all (\<lambda>kv. length (snd kv) \<le> 1) raw_terms_df"
  shows "create_term_pairs e raw_terms_file processed_terms_file w = (Inl UnboundLocalError, w)"
  using assms raw_pairs_loop_none [OF assms(2), of "[]"]
  by (simp add: create_term_pairs_def)

text \<open>
  A raw dump with one object of one term and one object without terms.
\<close>

theorem create_term_pairs_unbound_witness:
  "files single_terms_world ''raw.json'' = Some (JsonFile (DictV [(2, [TermStr ''B'']), (7, [])]))
   \<and> list_all (\<lambda>kv. length (snd kv) \<le> 1) [(2 :: int, [TermStr ''B'']), (7, [])]
   \<and> create_term_pairs demo_env ''raw.json'' ''pairs.csv'' single_terms_world
       = (Inl UnboundLocalError, single_terms_world)"
proof -
  have f: "files single_terms_world ''raw.json''
             = Some (JsonFile (DictV [(2, [TermStr ''B'']), (7, [])]))"
    by (simp add: single_terms_world_def)
  have l: "list_all (\<lambda>kv. length (snd kv) \<le> 1) [(2 :: int, [TermStr ''B'']), (7, [])]"
    by simp
  from create_term_pairs_unbound [OF f l, of demo_env "''pairs.csv''"] f l
  show ?thesis by simp
qed

text \<open>
  C6.  Take a full-list batch and a pairs batch over the same collection (same API, same
  endpoints, parameters and limit, pairwise distinct identifiers), both returning.  Run
  \<^verbatim>\<open>create_term_pairs\<close> on a file holding the mapping the full-list batch returned, writing
  to the path the pairs batch wrote its edge table to, in a world where that path held
  what it held before the pairs batch and its directory exists.  Then the file at that
  path is the same after both: the same edge table, or in both cases the file as it was
  when there is no pair.  (The pairs batch must not also write its JSON dump or its report
  to that path.)
\<close>

theorem offline_deriver_same_edge_table:
  assumes raw_run:
      "get_terms_from_collection e collection_endpoint collection_params (Some object_endpoint)
         report_a report_file_a save_file_a save_csv_a verbose_a limit w_a
       = (Inr (DictV raw_terms, none_count_a), w_a')"
    and pairs_run:
      "get_terms_pairs e collection_endpoint collection_params (Some object_endpoint)
         report_b report_file_b save_file_b (Some csv) verbose_b False limit w_b
       = (Inr (ListV pairs, none_count_b), w_b')"
    and unique: "distinct (listed_ids e collection_endpoint collection_params limit)"
    and dump: "files w raw_terms_file = Some (JsonFile (DictV raw_terms))"
    and dir: "dirname_abspath e csv \<in> dirs w"
    and before: "files w csv = files w_b csv"
    and csv: "csv \<noteq> []"
    and noalias: "save_file_b \<noteq> Some csv" "report_b \<longrightarrow> report_file_b \<noteq> csv"
  shows "files (snd (create_term_pairs e raw_terms_file csv w)) csv = files w_b' csv"
proof -
  let ?ids = "listed_ids e collection_endpoint collection_params limit"
  let ?ft = "fetched_terms e object_endpoint"
  let ?qs = "concat (map (\<lambda>i. combinations2 (?ft i)) (filter (\<lambda>i. 1 < length (?ft i)) ?ids))"
  from collection_Inr_D [OF raw_run] obtain ids_a where
    a: "fst (validate_paths e [save_file_a, save_csv_a, Some report_file_a] w_a) = Inr ()"
       "str_truthy (Some object_endpoint)"
       "fst (get_object_ids e collection_endpoint collection_params limit blank_world) = Inr ids_a"
    by blast
  from get_terms_from_collection_returns [OF a, of report_a verbose_a] raw_run
  have "raw_terms = foldl (\<lambda>d i. AList.update i (object_terms_of e object_endpoint True i) d) []
                      (filter (object_success e object_endpoint True) ?ids)"
    by (auto split: if_splits)
  then have "raw_terms = map (\<lambda>i. (i, map TermStr (?ft i))) (filter (\<lambda>i. ?ft i \<noteq> []) ?ids)"
    using raw_batch_dict [OF unique] by simp
  then have loop: "raw_pairs_loop raw_terms [] = map (map_prod TermStr TermStr) ?qs"
    using raw_dump_pairs [of e object_endpoint ?ids] by simp
  from pairs_Inr_D [OF pairs_run] obtain ids_b where
    b: "fst (validate_paths e [save_file_b, Some csv, Some report_file_b] w_b) = Inr ()"
       "str_truthy (Some object_endpoint)"
       "fst (get_object_ids e collection_endpoint collection_params limit blank_world) = Inr ids_b"
    by blast
  from get_terms_pairs_returns [OF b, of report_b verbose_b False] pairs_run
  have "pairs = concat (map (object_terms_of e object_endpoint False)
                  (filter (object_success e object_endpoint False) ?ids))"
    by auto
  then have "pairs = map (\<lambda>pair. PairDict (fst pair) (snd pair)) ?qs"
    using pairs_batch_terms [of e object_endpoint ?ids] by simp
  with pairs_run have x: "files w_b' csv
      = (if ?qs = [] then files w_b csv else Some (CsvFile (groupby_size ?qs)))"
    using get_terms_pairs_csv [OF _ noalias csv, of e collection_endpoint collection_params
        "Some object_endpoint" verbose_b limit w_b ?qs none_count_b w_b']
    by simp
  have y: "files (snd (create_term_pairs e raw_terms_file csv w)) csv
      = (if ?qs = [] then files w csv else Some (CsvFile (groupby_size ?qs)))"
    by (rule create_term_pairs_csv [OF dump loop dir])
  show ?thesis
  proof (cases "?qs = []")
    case True
    have "files w_b' csv = files w_b csv"
      using x True by (simp only: if_True simp_thms)
    moreover have "files (snd (create_term_pairs e raw_terms_file csv w)) csv = files w csv"
      using y True by (simp only: if_True simp_thms)
    ultimately show ?thesis
      using before by (simp only:)
  next
    case False
    have "files w_b' csv = Some (CsvFile (groupby_size ?qs))"
      using x False by (simp only: if_False)
    moreover have "files (snd (create_term_pairs e raw_terms_file csv w)) csv
        = Some (CsvFile (groupby_size ?qs))"
      using y False by (simp only: if_False)
    ultimately show ?thesis
      by (simp only:)
  qed
qed

text \<open>
  The concrete collection: both ways give the rows (A,B,1), (A,C,1), (B,A,1), (B,C,1).
\<close>

theorem offline_deriver_same_edge_table_witness:
  "fst (get_terms_from_collection demo_env ''api/objects'' None (Some ''api/objects'') True
       ''report.txt'' (Some ''raw.json'') (Some ''unused.csv'') False None demo_world)
     = Inr (DictV [(1, [TermStr ''A'', TermStr ''B'', TermStr ''C'']),
                   (2, [TermStr ''B'']),
                   (4, [TermStr ''B'', TermStr ''A''])], 2)
   \<and> fst (get_terms_pairs demo_env ''api/objects'' None (Some ''api/objects'') True ''report.txt''
       (Some ''pairs.json'') (Some ''pairs.csv'') False False None demo_world)
     = Inr (ListV [PairDict ''A'' ''B'', PairDict ''A'' ''C'', PairDict ''B'' ''C'',
                    PairDict ''B'' ''A''], 3)
   \<and> distinct (listed_ids demo_env ''api/objects'' None None)
   \<and> files dumped_world ''raw.json''
       = Some (JsonFile (DictV [(1, [TermStr ''A'', TermStr ''B'', TermStr ''C'']),
                   (2, [TermStr ''B'']),
                   (4, [TermStr ''B'', TermStr ''A''])]))
   \<and> dirname_abspath demo_env ''pairs.csv'' \<in> dirs dumped_world
   \<and> files dumped_world ''pairs.csv'' = files demo_world ''pairs.csv''
   \<and> files (snd (create_term_pairs demo_env ''raw.json'' ''pairs.csv'' dumped_world)) ''pairs.csv''
       = Some (CsvFile [(''A'', ''B'', 1), (''A'', ''C'', 1), (''B'', ''A'', 1), (''B'', ''C'', 1)])"
proof -
  let ?d = "[(1, [TermStr ''A'', TermStr ''B'', TermStr ''C'']), (2, [TermStr ''B'']),
             (4, [TermStr ''B'', TermStr ''A''])]"
  let ?a = "get_terms_from_collection demo_env ''api/objects'' None (Some ''api/objects'') True
       ''report.txt'' (Some ''raw.json'') (Some ''unused.csv'') False None demo_world"
  let ?b = "get_terms_pairs demo_env ''api/objects'' None (Some ''api/objects'') True ''report.txt''
       (Some ''pairs.json'') (Some ''pairs.csv'') False False None demo_world"
  have h1: "?a = (Inr (DictV ?d, 2), snd ?a)"
    using demo_raw_value by (metis prod.collapse)
  have h2: "?b = (Inr (ListV [PairDict ''A'' ''B'', PairDict ''A'' ''C'', PairDict ''B'' ''C'',
                    PairDict ''B'' ''A''], 3), snd ?b)"
    using demo_batch_value by (metis prod.collapse)
  have h3: "distinct (listed_ids demo_env ''api/objects'' None None)"
    using listed_ids_eq [OF demo_listing] by simp
  have h4: "files dumped_world ''raw.json'' = Some (JsonFile (DictV ?d))"
    by (simp add: dumped_world_def)
  have h5: "dirname_abspath demo_env ''pairs.csv'' \<in> dirs dumped_world"
    by (simp add: dumped_world_def demo_env_def)
  have h6: "files dumped_world ''pairs.csv'' = files demo_world ''pairs.csv''"
    by (simp add: dumped_world_def demo_world_def)
  have h7: "''pairs.csv'' \<noteq> []" by simp
  have h8: "Some ''pairs.json'' \<noteq> Some ''pairs.csv''" by simp
  have h9: "True \<longrightarrow> ''report.txt'' \<noteq> ''pairs.csv''" by simp
  from offline_deriver_same_edge_table [OF h1 h2 h3 h4 h5 h6 h7 h8 h9]
  have "files (snd (create_term_pairs demo_env ''raw.json'' ''pairs.csv'' dumped_world)) ''pairs.csv''
      = files (snd ?b) ''pairs.csv''" .
  then show ?thesis
    using demo_raw_value demo_batch_value h3 h4 h5 h6 demo_batch_csv demo_edges by simp
qed

end
